theory Spec2Isabelle
  imports Complex_Main "HOL-Library.Multiset"
begin

section \<open>Multiplayer tic-tac-toe (gamehub.jsx, component TicTacToeMultiplayer)\<close>

subsection \<open>Data model\<close>

text \<open>
  A board slot holds \<^verbatim>\<open>null\<close>, \<^verbatim>\<open>'X'\<close> or \<^verbatim>\<open>'O'\<close>. Reading a JavaScript array
  beyond its length gives \<^verbatim>\<open>undefined\<close>, and writing beyond its length leaves holes that
  read as \<^verbatim>\<open>undefined\<close>, so the slot type has that value too.
\<close>

datatype mark = PlayerX | PlayerO

datatype cell = Null | Mark mark | Undefined

datatype status = Waiting | InProgress | Finished

text \<open>The \<^verbatim>\<open>winner\<close> field: \<^verbatim>\<open>null\<close> is \<open>None\<close>; \<^verbatim>\<open>'X'\<close>, \<^verbatim>\<open>'O'\<close>, \<^verbatim>\<open>'Draw'\<close> otherwise.\<close>

datatype result = Won mark | Draw

text \<open>
  The Firestore document of one game. Identifiers are strings or \<^verbatim>\<open>null\<close>; timestamps
  (\<^verbatim>\<open>new Date()\<close>) are read from a clock passed as a natural number.
\<close>

record match_doc =
  player1Id :: "string option"
  player2Id :: "string option"
  board :: "cell list"
  currentPlayer :: mark
  status :: status
  winner :: "result option"
  createdAt :: nat
  lastMoveAt :: nat

text \<open>
  The argument of \<^verbatim>\<open>updateDoc\<close>: the fields it names, each with its new value; a field
  that is \<open>None\<close> here is not named and keeps its value.
\<close>

record update =
  u_player1Id :: "string option option"
  u_player2Id :: "string option option"
  u_board :: "cell list option"
  u_currentPlayer :: "mark option"
  u_status :: "status option"
  u_winner :: "result option option"
  u_lastMoveAt :: "nat option"

definition no_fields :: update where
  "no_fields = \<lparr>u_player1Id = None, u_player2Id = None, u_board = None,
     u_currentPlayer = None, u_status = None, u_winner = None, u_lastMoveAt = None\<rparr>"

definition or_keep :: "'a option \<Rightarrow> 'a \<Rightarrow> 'a" where
  "or_keep n old = (case n of None \<Rightarrow> old | Some v \<Rightarrow> v)"

definition updateDoc :: "update \<Rightarrow> match_doc \<Rightarrow> match_doc" where
  "updateDoc u d =
     d\<lparr>player1Id := or_keep (u_player1Id u) (player1Id d),
       player2Id := or_keep (u_player2Id u) (player2Id d),
       board := or_keep (u_board u) (board d),
       currentPlayer := or_keep (u_currentPlayer u) (currentPlayer d),
       status := or_keep (u_status u) (status d),
       winner := or_keep (u_winner u) (winner d),
       lastMoveAt := or_keep (u_lastMoveAt u) (lastMoveAt d)\<rparr>"

text \<open>
  The React state of the component together with the Firebase context it reads:
  \<^verbatim>\<open>db\<close> (is the handle there), \<^verbatim>\<open>userId\<close>, \<^verbatim>\<open>currentGameId\<close>, the cached copy of the
  subscribed document and \<^verbatim>\<open>playerRole\<close>. Presentation state (modal, loading flag,
  opponent label, list of games) is left out.
\<close>

record client =
  db :: bool
  userId :: "string option"
  currentGameId :: "string option"
  st_board :: "cell list"
  st_currentPlayer :: mark
  st_winner :: "result option"
  st_status :: status
  playerRole :: "mark option"

subsection \<open>JavaScript values\<close>

text \<open>Truthiness: \<^verbatim>\<open>null\<close>, \<^verbatim>\<open>undefined\<close> and the empty string are falsy.\<close>

definition truthy_id :: "string option \<Rightarrow> bool" where
  "truthy_id s = (case s of None \<Rightarrow> False | Some t \<Rightarrow> t \<noteq> [])"

fun truthy :: "cell \<Rightarrow> bool" where
  "truthy (Mark m) = True"
| "truthy Null = False"
| "truthy Undefined = False"

text \<open>\<^verbatim>\<open>squares[i]\<close>: \<^verbatim>\<open>undefined\<close> out of range.\<close>

definition js_get :: "cell list \<Rightarrow> nat \<Rightarrow> cell" where
  "js_get squares i = (if i < length squares then squares ! i else Undefined)"

text \<open>\<^verbatim>\<open>squares[i] = v\<close>: out of range the array grows, the slots in between are holes.\<close>

definition js_set :: "cell list \<Rightarrow> nat \<Rightarrow> cell \<Rightarrow> cell list" where
  "js_set squares i v =
     (if i < length squares then squares[i := v]
      else squares @ replicate (i - length squares) Undefined @ [v])"

subsection \<open>calculateWinner\<close>

definition lines :: "(nat \<times> nat \<times> nat) list" where
  "lines = [(0, 1, 2), (3, 4, 5), (6, 7, 8),
            (0, 3, 6), (1, 4, 7), (2, 5, 8),
            (0, 4, 8), (2, 4, 6)]"

text \<open>
  The test of the loop body,
  \<^verbatim>\<open>squares[a] && squares[a] === squares[b] && squares[a] === squares[c]\<close>.
\<close>

definition line_hit :: "cell list \<Rightarrow> nat \<times> nat \<times> nat \<Rightarrow> bool" where
  "line_hit squares l =
     (case l of (a, b, c) \<Rightarrow>
        truthy (js_get squares a) \<and> js_get squares a = js_get squares b
        \<and> js_get squares a = js_get squares c)"

text \<open>The value returned from inside the loop, \<^verbatim>\<open>squares[a]\<close>, as a \<^verbatim>\<open>winner\<close> value.\<close>

fun as_result :: "cell \<Rightarrow> result option" where
  "as_result (Mark m) = Some (Won m)"
| "as_result Null = None"
| "as_result Undefined = None"

text \<open>The \<^verbatim>\<open>for\<close> loop over \<^verbatim>\<open>lines\<close>: the first line that hits returns.\<close>

fun scan :: "cell list \<Rightarrow> (nat \<times> nat \<times> nat) list \<Rightarrow> cell option" where
  "scan squares [] = None"
| "scan squares (l # ls) =
     (if line_hit squares l then Some (js_get squares (fst l)) else scan squares ls)"

text \<open>
  \<^verbatim>\<open>squares.every(square => square !== null)\<close>. A hole is skipped by \<^verbatim>\<open>every\<close> and
  \<^verbatim>\<open>undefined !== null\<close> holds, so both count as passing.
\<close>

definition every_not_null :: "cell list \<Rightarrow> bool" where
  "every_not_null squares = list_all (\<lambda>square. square \<noteq> Null) squares"

definition calculateWinner :: "cell list \<Rightarrow> result option" where
  "calculateWinner squares =
     (case scan squares lines of
        Some c \<Rightarrow> as_result c
      | None \<Rightarrow> if every_not_null squares then Some Draw else None)"

subsection \<open>The subscription callback\<close>

text \<open>
  \<^verbatim>\<open>onSnapshot\<close> of the current game: an existing document is copied into the state and
  the role follows from the position of \<^verbatim>\<open>userId\<close> among the players; a missing document
  resets the state.
\<close>

definition role_of :: "match_doc \<Rightarrow> string option \<Rightarrow> mark option" where
  "role_of gameData uid =
     (if player1Id gameData = uid then Some PlayerX
      else if player2Id gameData = uid then Some PlayerO
      else None)"

definition onSnapshot :: "match_doc option \<Rightarrow> client \<Rightarrow> client" where
  "onSnapshot docSnap c =
     (case docSnap of
        Some gameData \<Rightarrow>
          c\<lparr>st_board := board gameData, st_currentPlayer := currentPlayer gameData,
            st_winner := winner gameData, st_status := status gameData,
            playerRole := role_of gameData (userId c)\<rparr>
      | None \<Rightarrow>
          c\<lparr>currentGameId := None, st_board := replicate 9 Null, st_currentPlayer := PlayerX,
            st_winner := None, st_status := Waiting, playerRole := None\<rparr>)"

subsection \<open>The handlers\<close>

text \<open>The initial React state, for a signed-in user with the store at hand.\<close>

definition initial_client :: "string \<Rightarrow> client" where
  "initial_client uid =
     \<lparr>db = True, userId = Some uid, currentGameId = None, st_board = replicate 9 Null,
      st_currentPlayer = PlayerX, st_winner = None, st_status = Waiting, playerRole = None\<rparr>"

text \<open>\<^verbatim>\<open>createNewGame\<close>: the document handed to \<^verbatim>\<open>addDoc\<close>, or nothing on the early return.\<close>

definition createNewGame :: "client \<Rightarrow> nat \<Rightarrow> match_doc option" where
  "createNewGame c now =
     (if \<not> db c \<or> \<not> truthy_id (userId c) then None
      else Some \<lparr>player1Id = userId c, player2Id = None, board = replicate 9 Null,
                 currentPlayer = PlayerX, status = Waiting, winner = None,
                 createdAt = now, lastMoveAt = now\<rparr>)"

text \<open>
  \<^verbatim>\<open>joinGame(gameId, player1Id)\<close>: a silent return, the "Cannot Join" modal, or the
  \<^verbatim>\<open>updateDoc\<close> it issues.
\<close>

datatype join_result = JoinIgnored | CannotJoinOwnMatch | JoinWrite update

definition joinGame :: "client \<Rightarrow> string \<Rightarrow> string option \<Rightarrow> nat \<Rightarrow> join_result" where
  "joinGame c gameId p1 now =
     (if \<not> db c \<or> \<not> truthy_id (userId c) \<or> Some gameId = currentGameId c then JoinIgnored
      else if p1 = userId c then CannotJoinOwnMatch
      else JoinWrite (no_fields\<lparr>u_player2Id := Some (userId c),
                                 u_status := Some InProgress,
                                 u_lastMoveAt := Some now\<rparr>))"

text \<open>\<^verbatim>\<open>makeMove(i)\<close>: nothing on the early return, else the \<^verbatim>\<open>updateDoc\<close> it issues.\<close>

definition toggle :: "mark option \<Rightarrow> mark" where
  "toggle r = (if r = Some PlayerX then PlayerO else PlayerX)"

definition role_cell :: "mark option \<Rightarrow> cell" where
  "role_cell r = (case r of None \<Rightarrow> Null | Some m \<Rightarrow> Mark m)"

definition makeMove :: "client \<Rightarrow> nat \<Rightarrow> nat \<Rightarrow> update option" where
  "makeMove c i now =
     (if \<not> db c \<or> \<not> truthy_id (currentGameId c) \<or> st_winner c \<noteq> None
         \<or> truthy (js_get (st_board c) i) \<or> st_status c \<noteq> InProgress
         \<or> Some (st_currentPlayer c) \<noteq> playerRole c
      then None
      else
        let newBoard = js_set (st_board c) i (role_cell (playerRole c));
            newWinner = calculateWinner newBoard
        in Some (no_fields\<lparr>u_board := Some newBoard,
                            u_currentPlayer := Some (toggle (playerRole c)),
                            u_winner := Some newWinner,
                            u_status := Some (if newWinner \<noteq> None then Finished else InProgress),
                            u_lastMoveAt := Some now\<rparr>))"

text \<open>\<^verbatim>\<open>resetCurrentGame\<close>.\<close>

definition resetCurrentGame :: "client \<Rightarrow> nat \<Rightarrow> update option" where
  "resetCurrentGame c now =
     (if \<not> db c \<or> \<not> truthy_id (currentGameId c) \<or> playerRole c = None then None
      else Some (no_fields\<lparr>u_board := Some (replicate 9 Null),
                            u_currentPlayer := Some PlayerX,
                            u_winner := Some None,
                            u_status := Some InProgress,
                            u_lastMoveAt := Some now\<rparr>))"

text \<open>
  \<^verbatim>\<open>leaveGame\<close>: the request it sends to the store after reading the document with
  \<^verbatim>\<open>getDoc\<close> (\<open>gameSnap\<close>, \<open>None\<close> when the document does not exist).
\<close>

datatype request = NoRequest | SendUpdate update | SendDelete

definition leaveGame :: "client \<Rightarrow> match_doc option \<Rightarrow> request" where
  "leaveGame c gameSnap =
     (if \<not> db c \<or> \<not> truthy_id (currentGameId c) then NoRequest
      else case gameSnap of
        None \<Rightarrow> NoRequest
      | Some gameData \<Rightarrow>
          if player1Id gameData = userId c \<and> \<not> truthy_id (player2Id gameData) then SendDelete
          else if player1Id gameData = userId c then
            SendUpdate (no_fields\<lparr>u_player1Id := Some (player2Id gameData),
                                   u_player2Id := Some None,
                                   u_status := Some Waiting,
                                   u_winner := Some None\<rparr>)
          else if player2Id gameData = userId c then
            SendUpdate (no_fields\<lparr>u_player2Id := Some None,
                                   u_status := Some Waiting,
                                   u_winner := Some None\<rparr>)
          else NoRequest)"

subsection \<open>The coordinator's operations on one document\<close>

text \<open>
  An operation of the coordinator is a handler run by a client whose state is in step
  with the document: a client in the lobby for a join, a client that has the game open
  and has received its snapshot for a move, a reset or a leave. The result is the document
  after the store has carried out the request.
\<close>

definition in_game :: "string \<Rightarrow> string \<Rightarrow> match_doc \<Rightarrow> client" where
  "in_game gameId uid d = onSnapshot (Some d) ((initial_client uid)\<lparr>currentGameId := Some gameId\<rparr>)"

definition createMatch :: "string \<Rightarrow> nat \<Rightarrow> match_doc option" where
  "createMatch ownerId now = createNewGame (initial_client ownerId) now"

definition joinMatch :: "string \<Rightarrow> string \<Rightarrow> nat \<Rightarrow> match_doc \<Rightarrow> match_doc" where
  "joinMatch gameId joinerId now d =
     (case joinGame (initial_client joinerId) gameId (player1Id d) now of
        JoinWrite u \<Rightarrow> updateDoc u d
      | _ \<Rightarrow> d)"

definition submitMove :: "string \<Rightarrow> string \<Rightarrow> nat \<Rightarrow> nat \<Rightarrow> match_doc \<Rightarrow> match_doc" where
  "submitMove gameId actorId cellIndex now d =
     (case makeMove (in_game gameId actorId d) cellIndex now of
        Some u \<Rightarrow> updateDoc u d
      | None \<Rightarrow> d)"

definition resetMatch :: "string \<Rightarrow> string \<Rightarrow> nat \<Rightarrow> match_doc \<Rightarrow> match_doc" where
  "resetMatch gameId actorId now d =
     (case resetCurrentGame (in_game gameId actorId d) now of
        Some u \<Rightarrow> updateDoc u d
      | None \<Rightarrow> d)"

text \<open>\<open>None\<close>: the document has been deleted.\<close>

definition leaveMatch :: "string \<Rightarrow> string \<Rightarrow> match_doc \<Rightarrow> match_doc option" where
  "leaveMatch gameId leaverId d =
     (case leaveGame (in_game gameId leaverId d) (Some d) of
        NoRequest \<Rightarrow> Some d
      | SendUpdate u \<Rightarrow> Some (updateDoc u d)
      | SendDelete \<Rightarrow> None)"

subsection \<open>Notions used to state the properties\<close>

text \<open>
  The rejection conditions in the words of the specification: the match is not in
  progress, a winner is set, the target cell is occupied, or the actor's role is not the
  current player.
\<close>

definition rejects :: "match_doc \<Rightarrow> string \<Rightarrow> nat \<Rightarrow> bool" where
  "rejects d actorId i =
     (status d \<noteq> InProgress \<or> winner d \<noteq> None \<or> truthy (js_get (board d) i)
      \<or> role_of d (Some actorId) \<noteq> Some (currentPlayer d))"

definition other :: "mark \<Rightarrow> mark" where
  "other m = (case m of PlayerX \<Rightarrow> PlayerO | PlayerO \<Rightarrow> PlayerX)"

text \<open>A winning line in the words of the specification: all three cells hold the mark.\<close>

definition wins :: "cell list \<Rightarrow> mark \<Rightarrow> nat \<times> nat \<times> nat \<Rightarrow> bool" where
  "wins squares m l =
     (case l of (a, b, c) \<Rightarrow>
        js_get squares a = Mark m \<and> js_get squares b = Mark m \<and> js_get squares c = Mark m)"

definition no_line :: "cell list \<Rightarrow> bool" where
  "no_line squares = (\<forall>l \<in> set lines. \<forall>m. \<not> wins squares m l)"

text \<open>The number of occupied cells.\<close>

definition marked :: "cell list \<Rightarrow> nat" where
  "marked squares = length (filter truthy squares)"

text \<open>
  A sequence of moves (actor, cell, time of the click), each of which has to be accepted:
  \<open>None\<close> as soon as \<^verbatim>\<open>makeMove\<close> returns early.
\<close>

fun play :: "string \<Rightarrow> (string \<times> nat \<times> nat) list \<Rightarrow> match_doc \<Rightarrow> match_doc option" where
  "play g [] d = Some d"
| "play g ((actorId, i, now) # ms) d =
     (if makeMove (in_game g actorId d) i now = None then None
      else play g ms (submitMove g actorId i now d))"

text \<open>The documents of game \<open>g\<close> that the operations can produce, starting from a creation.\<close>

inductive reachable :: "string \<Rightarrow> match_doc \<Rightarrow> bool" for g :: string where
  created: "createMatch ownerId now = Some d \<Longrightarrow> reachable g d"
| joined: "reachable g d \<Longrightarrow> reachable g (joinMatch g joinerId now d)"
| moved: "reachable g d \<Longrightarrow> reachable g (submitMove g actorId i now d)"
| left: "reachable g d \<Longrightarrow> leaveMatch g leaverId d = Some d' \<Longrightarrow> reachable g d'"
| reset: "reachable g d \<Longrightarrow> reachable g (resetMatch g actorId now d)"

text \<open>
  One direction of each of the two status rules: a finished match has a winner, and a
  waiting match has no second player.
\<close>

definition weak_inv :: "match_doc \<Rightarrow> bool" where
  "weak_inv d \<longleftrightarrow>
     (status d = Finished \<longrightarrow> winner d \<noteq> None) \<and> (status d = Waiting \<longrightarrow> player2Id d = None)"

text \<open>The documents of the scenarios: a game created by alice, then joined by bob.\<close>

definition scenario_created :: match_doc where
  "scenario_created =
     \<lparr>player1Id = Some ''alice'', player2Id = None, board = replicate 9 Null,
      currentPlayer = PlayerX, status = Waiting, winner = None,
      createdAt = 0, lastMoveAt = 0\<rparr>"

definition scenario_joined :: match_doc where
  "scenario_joined =
     \<lparr>player1Id = Some ''alice'', player2Id = Some ''bob'', board = replicate 9 Null,
      currentPlayer = PlayerX, status = InProgress, winner = None,
      createdAt = 0, lastMoveAt = 1\<rparr>"

text \<open>The board \<^verbatim>\<open>[X,X,X,_,O,O,_,_,_]\<close>.\<close>

definition scenario_board :: "cell list" where
  "scenario_board =
     [Mark PlayerX, Mark PlayerX, Mark PlayerX, Null, Mark PlayerO, Mark PlayerO, Null, Null, Null]"

text \<open>A full board without a line, and the position one move before \<open>scenario_board\<close>.\<close>

definition scenario_draw_board :: "cell list" where
  "scenario_draw_board =
     [Mark PlayerX, Mark PlayerO, Mark PlayerX,
      Mark PlayerX, Mark PlayerO, Mark PlayerO,
      Mark PlayerO, Mark PlayerX, Mark PlayerX]"

definition scenario_before_win :: match_doc where
  "scenario_before_win =
     \<lparr>player1Id = Some ''alice'', player2Id = Some ''bob'',
      board = [Mark PlayerX, Mark PlayerX, Null, Null, Mark PlayerO, Mark PlayerO, Null, Null, Null],
      currentPlayer = PlayerX, status = InProgress, winner = None,
      createdAt = 0, lastMoveAt = 5\<rparr>"

text \<open>A full game of nine moves: who clicks which cell, and when.\<close>

definition scenario_moves :: "(string \<times> nat \<times> nat) list" where
  "scenario_moves =
     [(''alice'', 0, 2), (''bob'', 1, 3), (''alice'', 2, 4), (''bob'', 4, 5), (''alice'', 3, 6),
      (''bob'', 5, 7), (''alice'', 7, 8), (''bob'', 6, 9), (''alice'', 8, 10)]"

text \<open>A short game that alice wins on the top row, and its final document.\<close>

definition scenario_win_moves :: "(string \<times> nat \<times> nat) list" where
  "scenario_win_moves =
     [(''alice'', 0, 2), (''bob'', 4, 3), (''alice'', 1, 4), (''bob'', 5, 5), (''alice'', 2, 6)]"

definition scenario_won :: match_doc where
  "scenario_won =
     \<lparr>player1Id = Some ''alice'', player2Id = Some ''bob'', board = scenario_board,
      currentPlayer = PlayerO, status = Finished, winner = Some (Won PlayerX),
      createdAt = 0, lastMoveAt = 6\<rparr>"

section \<open>Qibla compass (the script with \<^verbatim>\<open>getQiblaAngle\<close>)\<close>

text \<open>
  JavaScript numbers are taken as real numbers: the functions below are the formulas of
  the script in exact arithmetic, without the rounding of IEEE doubles, signed zeros or NaN.
\<close>

text \<open>\<^verbatim>\<open>Math.atan2(y, x)\<close>: the angle of the point \<open>(x, y)\<close> in \<open>(-\<pi>, \<pi>]\<close>, and 0 at the origin.\<close>

definition atan2 :: "real \<Rightarrow> real \<Rightarrow> real" where
  "atan2 y x =
     (if 0 < x then arctan (y / x)
      else if x < 0 \<and> 0 \<le> y then arctan (y / x) + pi
      else if x < 0 \<and> y < 0 then arctan (y / x) - pi
      else if 0 < y then pi / 2
      else if y < 0 then - (pi / 2)
      else 0)"

text \<open>The operator \<^verbatim>\<open>%\<close>: the remainder of the division truncated towards zero.\<close>

definition trunc :: "real \<Rightarrow> int" where
  "trunc r = (if 0 \<le> r then \<lfloor>r\<rfloor> else \<lceil>r\<rceil>)"

definition js_rem :: "real \<Rightarrow> real \<Rightarrow> real" where
  "js_rem a n = a - n * of_int (trunc (a / n))"

definition toRadians :: "real \<Rightarrow> real" where
  "toRadians deg = deg * pi / 180"

definition toDegrees :: "real \<Rightarrow> real" where
  "toDegrees rad = rad * 180 / pi"

definition getQiblaAngle :: "real \<Rightarrow> real \<Rightarrow> real \<Rightarrow> real \<Rightarrow> real" where
  "getQiblaAngle lat1 lon1 lat2 lon2 =
     (let latRad1 = toRadians lat1;
          lonRad1 = toRadians lon1;
          latRad2 = toRadians lat2;
          lonRad2 = toRadians lon2;
          y = sin (lonRad2 - lonRad1) * cos latRad2;
          x = cos latRad1 * sin latRad2 - sin latRad1 * cos latRad2 * cos (lonRad2 - lonRad1);
          brng = toDegrees (atan2 y x)
      in js_rem (brng + 360) 360)"

text \<open>
  The number that \<^verbatim>\<open>parseFloat\<close> reads back from \<^verbatim>\<open>n.toFixed(2)\<close>: \<open>n\<close> rounded to a
  multiple of 0.01, a tie going away from zero; from \<open>10\<^sup>2\<^sup>1\<close> on \<^verbatim>\<open>toFixed\<close> prints
  the number itself.
\<close>

definition toFixed2 :: "real \<Rightarrow> real" where
  "toFixed2 n =
     (if 10 ^ 21 \<le> \<bar>n\<bar> then n
      else if n < 0 then - (of_int \<lfloor>- n * 100 + 1 / 2\<rfloor> / 100)
      else of_int \<lfloor>n * 100 + 1 / 2\<rfloor> / 100)"

text \<open>
  The part of the page the script writes: the number shown in the element
  \<^verbatim>\<open>qibla-direction\<close>, the angle of \<^verbatim>\<open>rotate(...deg)\<close> in the style of the compass, and
  whether the \<^verbatim>\<open>deviceorientation\<close> listener has been added.
\<close>

record page =
  textContent :: real
  rotation :: real
  listening :: bool

definition qiblaLat :: real where
  "qiblaLat = 21.4225"

definition qiblaLon :: real where
  "qiblaLon = 39.8262"

definition showPosition :: "real \<times> real \<Rightarrow> page \<Rightarrow> page" where
  "showPosition coords p =
     (let userLat = fst coords;
          userLon = snd coords;
          qiblaAngle = getQiblaAngle userLat userLon qiblaLat qiblaLon
      in p\<lparr>textContent := toFixed2 qiblaAngle, rotation := qiblaAngle, listening := True\<rparr>)"

text \<open>\<^verbatim>\<open>handleOrientation(event)\<close>; \<open>alpha\<close> is \<open>None\<close> when \<^verbatim>\<open>event.alpha\<close> is \<^verbatim>\<open>null\<close>.\<close>

definition handleOrientation :: "real option \<Rightarrow> page \<Rightarrow> page" where
  "handleOrientation alpha p =
     (case alpha of
        Some a \<Rightarrow>
          (let qiblaAngle = textContent p;
               finalRotation = qiblaAngle - a
           in p\<lparr>rotation := finalRotation\<rparr>)
      | None \<Rightarrow> p)"

text \<open>A run of \<^verbatim>\<open>deviceorientation\<close> events, oldest first.\<close>

definition orientations :: "real option list \<Rightarrow> page \<Rightarrow> page" where
  "orientations alphas p = foldl (\<lambda>q alpha. handleOrientation alpha q) p alphas"

text \<open>A page on which the script has not written yet.\<close>

definition blank_page :: page where
  "blank_page = \<lparr>textContent = 0, rotation = 0, listening = False\<rparr>"

text \<open>The position of a user at the north pole, longitude 0.\<close>

definition north_pole :: "real \<times> real" where
  "north_pole = (90, 0)"

section \<open>Properties of the multiplayer game\<close>

subsection \<open>A client in step with the document\<close>

lemma in_game_simps:
  "db (in_game g a d) = True"
  "userId (in_game g a d) = Some a"
  "currentGameId (in_game g a d) = Some g"
  "st_board (in_game g a d) = board d"
  "st_currentPlayer (in_game g a d) = currentPlayer d"
  "st_winner (in_game g a d) = winner d"
  "st_status (in_game g a d) = status d"
  "playerRole (in_game g a d) = role_of d (Some a)"
  by (simp_all add: in_game_def onSnapshot_def initial_client_def)

lemma toggle_Some: "toggle (Some m) = other m"
  by (cases m) (simp_all add: toggle_def other_def)

lemma other_neq: "other m \<noteq> m"
  by (cases m) (simp_all add: other_def)

subsection \<open>Array reads and writes\<close>

lemma js_get_set_same: "js_get (js_set b i v) i = v"
  by (simp add: js_get_def js_set_def nth_append)

lemma js_get_set_other: "j \<noteq> i \<Longrightarrow> js_get (js_set b i v) j = js_get b j"
  by (auto simp: js_get_def js_set_def nth_append)

lemma js_set_in_range: "i < length b \<Longrightarrow> js_set b i v = b[i := v]"
  by (simp add: js_set_def)

lemma truthy_iff: "truthy c \<longleftrightarrow> (\<exists>m. c = Mark m)"
  by (cases c) simp_all

subsection \<open>The guard of makeMove and the write it issues\<close>

lemma makeMove_None_iff:
  "g \<noteq> [] \<Longrightarrow> makeMove (in_game g a d) i now = None \<longleftrightarrow> rejects d a i"
  by (auto simp: makeMove_def in_game_simps rejects_def truthy_id_def Let_def)

lemma makeMove_empty_id: "makeMove (in_game [] a d) i now = None"
  by (simp add: makeMove_def in_game_simps truthy_id_def)

lemma accepted_iff: "makeMove (in_game g a d) i now \<noteq> None \<longleftrightarrow> g \<noteq> [] \<and> \<not> rejects d a i"
  using makeMove_None_iff [of g a d i now] makeMove_empty_id [of a d i now]
  by (cases "g = []") auto

lemma makeMove_accept:
  assumes "g \<noteq> []" "\<not> rejects d a i"
  shows "makeMove (in_game g a d) i now =
     Some (no_fields\<lparr>u_board := Some (js_set (board d) i (Mark (currentPlayer d))),
             u_currentPlayer := Some (other (currentPlayer d)),
             u_winner := Some (calculateWinner (js_set (board d) i (Mark (currentPlayer d)))),
             u_status := Some (if calculateWinner (js_set (board d) i (Mark (currentPlayer d))) \<noteq> None
                               then Finished else InProgress),
             u_lastMoveAt := Some now\<rparr>)"
proof -
  from assms(2) have r: "role_of d (Some a) = Some (currentPlayer d)"
    and s: "status d = InProgress" and w: "winner d = None"
    and c: "\<not> truthy (js_get (board d) i)"
    by (auto simp: rejects_def)
  show ?thesis
    using assms(1) r s w c
    by (simp add: makeMove_def in_game_simps truthy_id_def Let_def role_cell_def toggle_Some)
qed

lemma submitMove_reject: "g \<noteq> [] \<Longrightarrow> rejects d a i \<Longrightarrow> submitMove g a i now d = d"
  using makeMove_None_iff [of g a d i now] by (simp add: submitMove_def)

lemma submitMove_accept:
  assumes "g \<noteq> []" "\<not> rejects d a i"
  shows "submitMove g a i now d =
     d\<lparr>board := js_set (board d) i (Mark (currentPlayer d)),
       currentPlayer := other (currentPlayer d),
       status := (if calculateWinner (js_set (board d) i (Mark (currentPlayer d))) \<noteq> None
                  then Finished else InProgress),
       winner := calculateWinner (js_set (board d) i (Mark (currentPlayer d))),
       lastMoveAt := now\<rparr>"
  by (simp add: submitMove_def makeMove_accept [OF assms] updateDoc_def or_keep_def no_fields_def)

lemma submitMove_occupies:
  assumes "g \<noteq> []" "\<not> rejects d a i"
  shows "rejects (submitMove g a i now d) a' i"
  by (simp add: submitMove_accept [OF assms] rejects_def js_get_set_same)

lemma accepted_result:
  assumes acc: "makeMove (in_game g a d) i now \<noteq> None"
  shows "winner (submitMove g a i now d) = calculateWinner (board (submitMove g a i now d))"
    and "status (submitMove g a i now d) =
           (if winner (submitMove g a i now d) \<noteq> None then Finished else InProgress)"
proof -
  from acc have g: "g \<noteq> []" and r: "\<not> rejects d a i"
    using accepted_iff [of g a d i now] by blast+
  show "winner (submitMove g a i now d) = calculateWinner (board (submitMove g a i now d))"
    by (simp add: submitMove_accept [OF g r])
  show "status (submitMove g a i now d) =
           (if winner (submitMove g a i now d) \<noteq> None then Finished else InProgress)"
    by (simp add: submitMove_accept [OF g r])
qed

text \<open>
  C1. For a client that has the game open, \<^verbatim>\<open>submitMove\<close> leaves the document as it is
  when the match is not in progress, a winner is set, the target cell is occupied or the
  actor's role is not the current player. Otherwise it writes the actor's role (which is
  the current player) into that cell and no other, sets the winner to the result of the
  line scan of the new board, toggles the current player, sets the status to finished
  when there is a winner and to in progress when there is none, and stamps the time. After
  an accepted move, and whenever the cell is occupied, a further call on the same cell by
  anyone changes nothing.
\<close>

theorem submitMove_guard_and_effect:
  assumes "gameId \<noteq> []"
  shows
    "(rejects d actorId i \<longrightarrow> submitMove gameId actorId i now d = d)
     \<and> (\<not> rejects d actorId i \<longrightarrow>
          role_of d (Some actorId) = Some (currentPlayer d)
          \<and> submitMove gameId actorId i now d =
              d\<lparr>board := js_set (board d) i (Mark (currentPlayer d)),
                currentPlayer := other (currentPlayer d),
                status := (if calculateWinner (js_set (board d) i (Mark (currentPlayer d))) \<noteq> None
                           then Finished else InProgress),
                winner := calculateWinner (js_set (board d) i (Mark (currentPlayer d))),
                lastMoveAt := now\<rparr>
          \<and> js_get (board (submitMove gameId actorId i now d)) i = Mark (currentPlayer d)
          \<and> (\<forall>j. j \<noteq> i \<longrightarrow>
                js_get (board (submitMove gameId actorId i now d)) j = js_get (board d) j)
          \<and> winner (submitMove gameId actorId i now d) =
              calculateWinner (board (submitMove gameId actorId i now d))
          \<and> currentPlayer (submitMove gameId actorId i now d) \<noteq> currentPlayer d
          \<and> (status (submitMove gameId actorId i now d) = Finished
               \<longleftrightarrow> winner (submitMove gameId actorId i now d) \<noteq> None)
          \<and> (status (submitMove gameId actorId i now d) = InProgress
               \<longleftrightarrow> winner (submitMove gameId actorId i now d) = None)
          \<and> submitMove gameId actorId' i now' (submitMove gameId actorId i now d) =
              submitMove gameId actorId i now d)
     \<and> (truthy (js_get (board d) i) \<longrightarrow>
          submitMove gameId actorId' i now' (submitMove gameId actorId i now d) = d)"
proof (intro conjI impI allI)
  assume "rejects d actorId i"
  with assms show "submitMove gameId actorId i now d = d" by (rule submitMove_reject)
next
  assume t: "truthy (js_get (board d) i)"
  then have "rejects d actorId i" "rejects d actorId' i" by (simp_all add: rejects_def)
  with assms show "submitMove gameId actorId' i now' (submitMove gameId actorId i now d) = d"
    by (simp add: submitMove_reject)
next
  assume r: "\<not> rejects d actorId i"
  note eq = submitMove_accept [OF assms r, of now]
  show "role_of d (Some actorId) = Some (currentPlayer d)"
    using r by (simp add: rejects_def)
  show "submitMove gameId actorId i now d =
      d\<lparr>board := js_set (board d) i (Mark (currentPlayer d)),
        currentPlayer := other (currentPlayer d),
        status := (if calculateWinner (js_set (board d) i (Mark (currentPlayer d))) \<noteq> None
                   then Finished else InProgress),
        winner := calculateWinner (js_set (board d) i (Mark (currentPlayer d))),
        lastMoveAt := now\<rparr>"
    by (rule eq)
  show "js_get (board (submitMove gameId actorId i now d)) i = Mark (currentPlayer d)"
    by (simp add: eq js_get_set_same)
  show "winner (submitMove gameId actorId i now d) =
      calculateWinner (board (submitMove gameId actorId i now d))"
    by (simp add: eq)
  show "currentPlayer (submitMove gameId actorId i now d) \<noteq> currentPlayer d"
    by (simp add: eq other_neq)
  show "status (submitMove gameId actorId i now d) = Finished
      \<longleftrightarrow> winner (submitMove gameId actorId i now d) \<noteq> None"
    by (simp add: eq)
  show "status (submitMove gameId actorId i now d) = InProgress
      \<longleftrightarrow> winner (submitMove gameId actorId i now d) = None"
    by (simp add: eq)
  show "submitMove gameId actorId' i now' (submitMove gameId actorId i now d) =
      submitMove gameId actorId i now d"
    using submitMove_occupies [OF assms r] assms by (simp add: submitMove_reject)
  fix j assume "j \<noteq> i"
  then show "js_get (board (submitMove gameId actorId i now d)) j = js_get (board d) j"
    by (simp add: eq js_get_set_other)
qed

lemma scenario_joined_simps:
  "status scenario_joined = InProgress"
  "winner scenario_joined = None"
  "board scenario_joined = replicate 9 Null"
  "currentPlayer scenario_joined = PlayerX"
  "player1Id scenario_joined = Some ''alice''"
  "player2Id scenario_joined = Some ''bob''"
  by (simp_all add: scenario_joined_def)

lemma replicate_9: "replicate 9 x = [x, x, x, x, x, x, x, x, x]"
  by (simp add: numeral_eq_Suc)

lemma scan_no_hit: "\<not> truthy (js_get squares (fst l)) \<Longrightarrow> scan squares (l # ls) = scan squares ls"
  by (cases l) (simp add: line_hit_def)

lemma calculateWinner_first_move:
  "calculateWinner [Mark PlayerX, Null, Null, Null, Null, Null, Null, Null, Null] = None"
  by (simp add: calculateWinner_def lines_def line_hit_def js_get_def every_not_null_def)

theorem submitMove_guard_and_effect_witness:
  "\<not> rejects scenario_joined ''alice'' 0
   \<and> submitMove ''g1'' ''alice'' 0 2 scenario_joined =
       scenario_joined\<lparr>board := [Mark PlayerX, Null, Null, Null, Null, Null, Null, Null, Null],
                        currentPlayer := PlayerO, lastMoveAt := 2\<rparr>
   \<and> rejects (submitMove ''g1'' ''alice'' 0 2 scenario_joined) ''alice'' 4
   \<and> submitMove ''g1'' ''alice'' 4 3 (submitMove ''g1'' ''alice'' 0 2 scenario_joined) =
       submitMove ''g1'' ''alice'' 0 2 scenario_joined
   \<and> submitMove ''g1'' ''bob'' 0 3 (submitMove ''g1'' ''alice'' 0 2 scenario_joined) =
       submitMove ''g1'' ''alice'' 0 2 scenario_joined"
proof -
  have g: "''g1'' \<noteq> []" by simp
  have r: "\<not> rejects scenario_joined ''alice'' 0"
    by (simp add: rejects_def scenario_joined_simps role_of_def js_get_def replicate_9)
  have b: "js_set (replicate 9 Null) 0 (Mark PlayerX) =
      [Mark PlayerX, Null, Null, Null, Null, Null, Null, Null, Null]"
    by (simp add: js_set_def replicate_9)
  note first = submitMove_guard_and_effect [OF g, where d = scenario_joined and actorId = "''alice''"
      and i = 0 and now = 2 and actorId' = "''bob''" and now' = 3]
  from first r have eq: "submitMove ''g1'' ''alice'' 0 2 scenario_joined =
       scenario_joined\<lparr>board := [Mark PlayerX, Null, Null, Null, Null, Null, Null, Null, Null],
                        currentPlayer := PlayerO, lastMoveAt := 2\<rparr>"
    by (simp add: scenario_joined_simps b calculateWinner_first_move other_def scenario_joined_def)
  from first r have again: "submitMove ''g1'' ''bob'' 0 3 (submitMove ''g1'' ''alice'' 0 2 scenario_joined) =
       submitMove ''g1'' ''alice'' 0 2 scenario_joined"
    by blast
  have out: "rejects (submitMove ''g1'' ''alice'' 0 2 scenario_joined) ''alice'' 4"
    unfolding eq by (simp add: rejects_def role_of_def scenario_joined_simps)
  from out submitMove_guard_and_effect [OF g, where d = "submitMove ''g1'' ''alice'' 0 2 scenario_joined"
      and actorId = "''alice''" and i = 4 and now = 3]
  have "submitMove ''g1'' ''alice'' 4 3 (submitMove ''g1'' ''alice'' 0 2 scenario_joined) =
       submitMove ''g1'' ''alice'' 0 2 scenario_joined"
    by blast
  with r eq again out show ?thesis by blast
qed

subsection \<open>The line scan\<close>

lemma line_hit_iff: "line_hit squares l \<longleftrightarrow> (\<exists>m. wins squares m l)"
  by (cases l) (auto simp: line_hit_def wins_def truthy_iff)

lemma wins_fst: "wins squares m l \<Longrightarrow> js_get squares (fst l) = Mark m"
  by (cases l) (simp add: wins_def)

lemma scan_None_iff: "scan squares ls = None \<longleftrightarrow> (\<forall>l \<in> set ls. \<not> line_hit squares l)"
  by (induction ls) simp_all

lemma scan_Some:
  "scan squares ls = Some c \<Longrightarrow> \<exists>l \<in> set ls. \<exists>m. wins squares m l \<and> c = Mark m"
proof (induction ls)
  case Nil
  then show ?case by simp
next
  case (Cons l ls)
  show ?case
  proof (cases "line_hit squares l")
    case True
    then obtain m where m: "wins squares m l" by (auto simp: line_hit_iff)
    with Cons.prems True have "c = Mark m" by (simp add: wins_fst)
    with m show ?thesis by auto
  next
    case False
    with Cons show ?thesis by auto
  qed
qed

text \<open>The scan sees a board only through which lines are won, and by whom.\<close>

lemma scan_cong:
  assumes "\<forall>l \<in> set ls. \<forall>m. wins squares' m l = wins squares m l"
  shows "scan squares' ls = scan squares ls"
  using assms
proof (induction ls)
  case Nil
  then show ?case by simp
next
  case (Cons l ls)
  have h: "line_hit squares' l = line_hit squares l"
    using Cons.prems by (simp add: line_hit_iff)
  show ?case
  proof (cases "line_hit squares l")
    case True
    then obtain m where m: "wins squares m l" by (auto simp: line_hit_iff)
    with Cons.prems have "wins squares' m l" by simp
    with m True h show ?thesis by (simp add: wins_fst)
  next
    case False
    with h Cons show ?thesis by simp
  qed
qed

lemma calculateWinner_Won:
  "calculateWinner squares = Some (Won m) \<Longrightarrow> \<exists>l \<in> set lines. wins squares m l"
  by (auto simp: calculateWinner_def split: option.splits if_splits dest!: scan_Some)

lemma calculateWinner_Draw:
  "calculateWinner squares = Some Draw \<longleftrightarrow> no_line squares \<and> every_not_null squares"
  by (auto simp: calculateWinner_def no_line_def scan_None_iff line_hit_iff
      split: option.splits if_splits dest!: scan_Some)

lemma calculateWinner_None:
  "calculateWinner squares = None \<longleftrightarrow> no_line squares \<and> \<not> every_not_null squares"
  by (auto simp: calculateWinner_def no_line_def scan_None_iff line_hit_iff
      split: option.splits if_splits dest!: scan_Some)

lemma calculateWinner_line:
  assumes "\<not> no_line squares"
  shows "\<exists>m. calculateWinner squares = Some (Won m)"
proof (cases "calculateWinner squares")
  case None
  with assms show ?thesis by (simp add: calculateWinner_None)
next
  case (Some r)
  show ?thesis
  proof (cases r)
    case (Won m)
    with Some show ?thesis by simp
  next
    case Draw
    with Some assms show ?thesis by (simp add: calculateWinner_Draw)
  qed
qed

lemma every_not_null_mset:
  "mset squares' = mset squares \<Longrightarrow> every_not_null squares' = every_not_null squares"
  by (auto simp: every_not_null_def list_all_iff dest: mset_eq_setD)

lemma calculateWinner_rearrange:
  assumes "mset squares' = mset squares"
    and "\<forall>l \<in> set lines. \<forall>m. wins squares' m l = wins squares m l"
  shows "calculateWinner squares' = calculateWinner squares"
  by (simp add: calculateWinner_def scan_cong [OF assms(2)] every_not_null_mset [OF assms(1)])

lemma every_not_null_marked:
  assumes "every_not_null squares" "Undefined \<notin> set squares"
  shows "marked squares = length squares"
proof -
  have "truthy c" if "c \<in> set squares" for c
  proof (cases c)
    case Null
    with that assms(1) show ?thesis by (auto simp: every_not_null_def list_all_iff)
  next
    case (Mark m)
    then show ?thesis by simp
  next
    case Undefined
    with that assms(2) show ?thesis by simp
  qed
  then have "filter truthy squares = squares" by (simp add: filter_id_conv)
  then show ?thesis by (simp add: marked_def)
qed

lemma calculateWinner_scenario_board: "calculateWinner scenario_board = Some (Won PlayerX)"
  by (simp add: scenario_board_def calculateWinner_def lines_def line_hit_def js_get_def)

text \<open>
  C2. \<^verbatim>\<open>calculateWinner\<close> returns a mark only when one of the eight lines holds that mark
  in all three cells, and always returns a mark when some line is won; it returns Draw
  exactly when no line is won and no cell is null (so that, on a board without holes,
  every cell is occupied), and null exactly when no line is won and some cell is null.
  Hence two boards with the same cell contents in another
  arrangement and the same won lines have the same result. On the board
  \<^verbatim>\<open>[X,X,X,_,O,O,_,_,_]\<close> the result is X, and whatever accepted move produces this board
  leaves the winner X and the status finished.
\<close>

theorem calculateWinner_line_scan:
  "(calculateWinner squares = Some (Won m) \<longrightarrow> (\<exists>l \<in> set lines. wins squares m l))
   \<and> (\<not> no_line squares \<longrightarrow> (\<exists>m'. calculateWinner squares = Some (Won m')))
   \<and> (calculateWinner squares = Some Draw \<longleftrightarrow> no_line squares \<and> every_not_null squares)
   \<and> (calculateWinner squares = None \<longleftrightarrow> no_line squares \<and> \<not> every_not_null squares)
   \<and> (calculateWinner squares = Some Draw \<and> Undefined \<notin> set squares
        \<longrightarrow> marked squares = length squares)
   \<and> (mset s' = mset s \<and> (\<forall>l \<in> set lines. \<forall>k. wins s' k l = wins s k l)
        \<longrightarrow> calculateWinner s' = calculateWinner s)
   \<and> calculateWinner scenario_board = Some (Won PlayerX)
   \<and> (makeMove (in_game g actorId d) i now \<noteq> None
        \<and> board (submitMove g actorId i now d) = scenario_board
        \<longrightarrow> winner (submitMove g actorId i now d) = Some (Won PlayerX)
            \<and> status (submitMove g actorId i now d) = Finished)"
proof (intro conjI impI)
  assume "calculateWinner squares = Some (Won m)"
  then show "\<exists>l \<in> set lines. wins squares m l" by (rule calculateWinner_Won)
next
  assume "\<not> no_line squares"
  then show "\<exists>m'. calculateWinner squares = Some (Won m')" by (rule calculateWinner_line)
next
  show "calculateWinner squares = Some Draw \<longleftrightarrow> no_line squares \<and> every_not_null squares"
    by (rule calculateWinner_Draw)
  show "calculateWinner squares = None \<longleftrightarrow> no_line squares \<and> \<not> every_not_null squares"
    by (rule calculateWinner_None)
  show "calculateWinner scenario_board = Some (Won PlayerX)"
    by (rule calculateWinner_scenario_board)
next
  assume "calculateWinner squares = Some Draw \<and> Undefined \<notin> set squares"
  then show "marked squares = length squares"
    by (simp add: calculateWinner_Draw every_not_null_marked)
next
  assume "mset s' = mset s \<and> (\<forall>l \<in> set lines. \<forall>k. wins s' k l = wins s k l)"
  then have "mset s' = mset s" and "\<forall>l \<in> set lines. \<forall>k. wins s' k l = wins s k l"
    by blast+
  then show "calculateWinner s' = calculateWinner s"
    by (rule calculateWinner_rearrange)
next
  assume a: "makeMove (in_game g actorId d) i now \<noteq> None
      \<and> board (submitMove g actorId i now d) = scenario_board"
  then have acc: "makeMove (in_game g actorId d) i now \<noteq> None" by simp
  from accepted_result [OF acc] a
  have w: "winner (submitMove g actorId i now d) = Some (Won PlayerX)"
    by (simp add: calculateWinner_scenario_board)
  show "winner (submitMove g actorId i now d) = Some (Won PlayerX)" by (rule w)
  from accepted_result(2) [OF acc] w
  show "status (submitMove g actorId i now d) = Finished" by simp
qed

lemma scenario_before_win_simps:
  "status scenario_before_win = InProgress"
  "winner scenario_before_win = None"
  "board scenario_before_win =
     [Mark PlayerX, Mark PlayerX, Null, Null, Mark PlayerO, Mark PlayerO, Null, Null, Null]"
  "currentPlayer scenario_before_win = PlayerX"
  "player1Id scenario_before_win = Some ''alice''"
  "player2Id scenario_before_win = Some ''bob''"
  by (simp_all add: scenario_before_win_def)

lemma no_line_draw_board: "no_line scenario_draw_board" "no_line (rev scenario_draw_board)"
  by (simp_all add: no_line_def lines_def wins_def js_get_def scenario_draw_board_def)

theorem calculateWinner_line_scan_witness:
  "(\<exists>l \<in> set lines. wins scenario_board PlayerX l)
   \<and> \<not> no_line scenario_board
   \<and> calculateWinner (rev scenario_draw_board) = calculateWinner scenario_draw_board
   \<and> calculateWinner scenario_draw_board = Some Draw
   \<and> marked scenario_draw_board = 9
   \<and> makeMove (in_game ''g1'' ''alice'' scenario_before_win) 2 6 \<noteq> None
   \<and> board (submitMove ''g1'' ''alice'' 2 6 scenario_before_win) = scenario_board
   \<and> winner (submitMove ''g1'' ''alice'' 2 6 scenario_before_win) = Some (Won PlayerX)
   \<and> status (submitMove ''g1'' ''alice'' 2 6 scenario_before_win) = Finished"
proof -
  note t = calculateWinner_line_scan [where squares = scenario_board and m = PlayerX
      and s' = "rev scenario_draw_board" and s = scenario_draw_board
      and g = "''g1''" and actorId = "''alice''" and d = scenario_before_win and i = 2 and now = 6]
  note u = calculateWinner_line_scan [where squares = scenario_draw_board]
  have r: "\<not> rejects scenario_before_win ''alice'' 2"
    by (simp add: rejects_def scenario_before_win_simps role_of_def js_get_def)
  have g: "''g1'' \<noteq> []" by simp
  with r have acc: "makeMove (in_game ''g1'' ''alice'' scenario_before_win) 2 6 \<noteq> None"
    using accepted_iff [of "''g1''" "''alice''" scenario_before_win 2 6] by blast
  have b: "board (submitMove ''g1'' ''alice'' 2 6 scenario_before_win) = scenario_board"
    by (simp add: submitMove_accept [OF g r] scenario_before_win_simps js_set_def scenario_board_def)
  have w: "\<exists>l \<in> set lines. wins scenario_board PlayerX l"
    using t by blast
  then have nl: "\<not> no_line scenario_board" by (auto simp: no_line_def)
  have same: "\<forall>l \<in> set lines. \<forall>k.
      wins (rev scenario_draw_board) k l = wins scenario_draw_board k l"
    using no_line_draw_board by (simp add: no_line_def)
  have "mset (rev scenario_draw_board) = mset scenario_draw_board" by simp
  with same t have p: "calculateWinner (rev scenario_draw_board) = calculateWinner scenario_draw_board"
    by blast
  have "every_not_null scenario_draw_board"
    by (simp add: every_not_null_def scenario_draw_board_def)
  with u no_line_draw_board(1) have dr: "calculateWinner scenario_draw_board = Some Draw"
    by blast
  have "Undefined \<notin> set scenario_draw_board" "length scenario_draw_board = 9"
    by (simp_all add: scenario_draw_board_def)
  with u dr have mk: "marked scenario_draw_board = 9" by simp
  from t acc b have "winner (submitMove ''g1'' ''alice'' 2 6 scenario_before_win) = Some (Won PlayerX)
      \<and> status (submitMove ''g1'' ''alice'' 2 6 scenario_before_win) = Finished"
    by blast
  with w nl p dr mk acc b show ?thesis by blast
qed

subsection \<open>One cell per accepted move\<close>

lemma marked_update:
  assumes "i < length b" "\<not> truthy (b ! i)"
  shows "marked (b[i := Mark m]) = Suc (marked b)"
proof -
  have b: "b = take i b @ b ! i # drop (Suc i) b"
    using assms(1) by (simp add: id_take_nth_drop)
  have u: "b[i := Mark m] = take i b @ Mark m # drop (Suc i) b"
    using assms(1) by (simp add: upd_conv_take_nth_drop)
  have "marked b = marked (take i b) + marked (drop (Suc i) b)"
    using assms(2) by (subst b) (simp add: marked_def)
  moreover have "marked (b[i := Mark m]) = marked (take i b) + Suc (marked (drop (Suc i) b))"
    by (simp add: u marked_def)
  ultimately show ?thesis by simp
qed

lemma marked_full:
  assumes "marked squares = length squares"
  shows "every_not_null squares"
proof -
  have "\<forall>c \<in> set squares. truthy c"
  proof (rule ccontr)
    assume "\<not> (\<forall>c \<in> set squares. truthy c)"
    then have "length (filter truthy squares) < length squares"
      by (auto intro: length_filter_less)
    with assms show False by (simp add: marked_def)
  qed
  then show ?thesis
    by (auto simp: every_not_null_def list_all_iff)
qed

lemma accepted_step:
  assumes acc: "makeMove (in_game g a d) i now \<noteq> None" and i: "i < length (board d)"
  shows "length (board (submitMove g a i now d)) = length (board d)"
    and "marked (board (submitMove g a i now d)) = Suc (marked (board d))"
proof -
  from acc have g: "g \<noteq> []" and r: "\<not> rejects d a i"
    using accepted_iff [of g a d i now] by blast+
  from r i have e: "\<not> truthy (board d ! i)" by (simp add: rejects_def js_get_def)
  show "length (board (submitMove g a i now d)) = length (board d)"
    using i by (simp add: submitMove_accept [OF g r] js_set_in_range)
  show "marked (board (submitMove g a i now d)) = Suc (marked (board d))"
    using i e by (simp add: submitMove_accept [OF g r] js_set_in_range marked_update)
qed

text \<open>
  C5. Between the document before an accepted move and the document after it, the cell
  of the move is the only index whose content differs; that cell was not occupied before
  (it was null, when the index lies on the board and the board has no hole) and holds the
  actor's role afterwards; the current player afterwards is the opposite mark. When the
  index lies on the board the board keeps its length, so exactly one of its cells has
  changed.
\<close>

theorem accepted_move_one_cell:
  assumes "makeMove (in_game g actorId d) i now \<noteq> None"
  shows
    "(let d' = submitMove g actorId i now d in
        {j. js_get (board d') j \<noteq> js_get (board d) j} = {i}
        \<and> \<not> truthy (js_get (board d) i)
        \<and> role_of d (Some actorId) = Some (currentPlayer d)
        \<and> js_get (board d') i = Mark (currentPlayer d)
        \<and> currentPlayer d' = other (currentPlayer d)
        \<and> other PlayerX = PlayerO \<and> other PlayerO = PlayerX
        \<and> (i < length (board d) \<longrightarrow>
              length (board d') = length (board d)
              \<and> {j. j < length (board d) \<and> board d' ! j \<noteq> board d ! j} = {i}
              \<and> card {j. j < length (board d) \<and> board d' ! j \<noteq> board d ! j} = 1
              \<and> (Undefined \<notin> set (board d) \<longrightarrow> board d ! i = Null)))"
proof -
  let ?d' = "submitMove g actorId i now d"
  from assms have g: "g \<noteq> []" and r: "\<not> rejects d actorId i"
    using accepted_iff [of g actorId d i now] by blast+
  note eq = submitMove_accept [OF g r, of now]
  from r have e: "\<not> truthy (js_get (board d) i)"
    and role: "role_of d (Some actorId) = Some (currentPlayer d)"
    by (simp_all add: rejects_def)
  have new: "js_get (board ?d') i = Mark (currentPlayer d)"
    by (simp add: eq js_get_set_same)
  have frame: "js_get (board ?d') j = js_get (board d) j" if "j \<noteq> i" for j
    using that by (simp add: eq js_get_set_other)
  have "js_get (board ?d') i \<noteq> js_get (board d) i"
  proof
    assume "js_get (board ?d') i = js_get (board d) i"
    with new have "truthy (js_get (board d) i)" by (simp add: truthy_iff)
    with e show False by simp
  qed
  with frame have changed: "{j. js_get (board ?d') j \<noteq> js_get (board d) j} = {i}"
    by auto
  have cp: "currentPlayer ?d' = other (currentPlayer d)"
    by (simp add: eq)
  have inside: "length (board ?d') = length (board d)
      \<and> {j. j < length (board d) \<and> board ?d' ! j \<noteq> board d ! j} = {i}
      \<and> card {j. j < length (board d) \<and> board ?d' ! j \<noteq> board d ! j} = 1
      \<and> (Undefined \<notin> set (board d) \<longrightarrow> board d ! i = Null)" if i: "i < length (board d)"
  proof -
    have len: "length (board ?d') = length (board d)"
      using accepted_step(1) [OF assms i] .
    have "{j. j < length (board d) \<and> board ?d' ! j \<noteq> board d ! j}
        = {j. js_get (board ?d') j \<noteq> js_get (board d) j}"
      using len by (auto simp: js_get_def)
    with changed have one: "{j. j < length (board d) \<and> board ?d' ! j \<noteq> board d ! j} = {i}"
      by simp
    have "board d ! i = Null" if "Undefined \<notin> set (board d)"
    proof (cases "board d ! i")
      case Null
      then show ?thesis .
    next
      case (Mark m)
      with e i show ?thesis by (simp add: js_get_def)
    next
      case Undefined
      with i have "Undefined \<in> set (board d)" by (metis nth_mem)
      with that show ?thesis by simp
    qed
    with len one show ?thesis by simp
  qed
  from changed e role new cp inside show ?thesis
    by (simp add: Let_def other_def)
qed

subsection \<open>A full game\<close>

lemma play_marked:
  assumes "play g ms d = Some d'" "\<forall>(a, i, t) \<in> set ms. i < length (board d)"
  shows "length (board d') = length (board d) \<and> marked (board d') = marked (board d) + length ms"
  using assms
proof (induction ms arbitrary: d)
  case Nil
  then show ?case by simp
next
  case (Cons m ms)
  obtain a i t where m: "m = (a, i, t)" by (cases m)
  from Cons.prems(1) m have acc: "makeMove (in_game g a d) i t \<noteq> None"
    and rest: "play g ms (submitMove g a i t d) = Some d'"
    by (simp_all split: if_splits)
  from Cons.prems(2) m have i: "i < length (board d)" by simp
  note st = accepted_step [OF acc i]
  from Cons.prems(2) st(1)
  have "\<forall>(a', i', t') \<in> set ms. i' < length (board (submitMove g a i t d))"
    by auto
  from Cons.IH [OF rest this] st show ?case by simp
qed

lemma play_last:
  assumes "play g ms d = Some d'" "ms \<noteq> []"
  shows "winner d' = calculateWinner (board d') \<and>
         status d' = (if winner d' \<noteq> None then Finished else InProgress)"
  using assms
proof (induction ms arbitrary: d)
  case Nil
  then show ?case by simp
next
  case (Cons m ms)
  obtain a i t where m: "m = (a, i, t)" by (cases m)
  from Cons.prems(1) m have acc: "makeMove (in_game g a d) i t \<noteq> None"
    and rest: "play g ms (submitMove g a i t d) = Some d'"
    by (simp_all split: if_splits)
  show ?case
  proof (cases "ms = []")
    case True
    with rest have "d' = submitMove g a i t d" by simp
    with accepted_result [OF acc] show ?thesis by simp
  next
    case False
    from Cons.IH [OF rest False] show ?thesis .
  qed
qed

lemma createMatch_Some:
  "createMatch ownerId now = Some d \<Longrightarrow> ownerId \<noteq> [] \<and>
     d = \<lparr>player1Id = Some ownerId, player2Id = None, board = replicate 9 Null,
          currentPlayer = PlayerX, status = Waiting, winner = None,
          createdAt = now, lastMoveAt = now\<rparr>"
  by (auto simp: createMatch_def createNewGame_def initial_client_def truthy_id_def
      split: if_splits)

lemma joinMatch_board: "board (joinMatch g j now d) = board d"
  by (simp add: joinMatch_def joinGame_def updateDoc_def or_keep_def no_fields_def)

text \<open>
  C8. Start from a match that has just been created and joined, and let nine moves on
  cells of the board be accepted one after the other. If the final board has no won line,
  the final document has status finished and winner Draw.
\<close>

theorem full_game_draw:
  assumes "createMatch ownerId t0 = Some dc"
    and "play g ms (joinMatch g joinerId t1 dc) = Some d"
    and "length ms = 9"
    and "\<forall>(a, i, t) \<in> set ms. i < 9"
    and "no_line (board d)"
  shows "status d = Finished \<and> winner d = Some Draw"
proof -
  let ?d0 = "joinMatch g joinerId t1 dc"
  have b0: "board ?d0 = replicate 9 Null"
    using createMatch_Some [OF assms(1)] by (simp add: joinMatch_board)
  have m0: "marked (board ?d0) = 0" by (simp add: b0 marked_def)
  have "\<forall>(a, i, t) \<in> set ms. i < length (board ?d0)"
    using assms(4) by (simp add: b0)
  from play_marked [OF assms(2) this] m0 assms(3) b0
  have "marked (board d) = length (board d)" by simp
  then have "every_not_null (board d)" by (rule marked_full)
  with assms(5) have "calculateWinner (board d) = Some Draw"
    by (simp add: calculateWinner_Draw)
  moreover from assms(3) have "ms \<noteq> []" by auto
  note play_last [OF assms(2) this]
  ultimately show ?thesis by simp
qed

theorem accepted_move_one_cell_witness:
  "makeMove (in_game ''g1'' ''alice'' scenario_joined) 0 2 \<noteq> None
   \<and> {j. js_get (board (submitMove ''g1'' ''alice'' 0 2 scenario_joined)) j
          \<noteq> js_get (board scenario_joined) j} = {0}
   \<and> length (board (submitMove ''g1'' ''alice'' 0 2 scenario_joined)) = 9
   \<and> card {j. j < 9 \<and> board (submitMove ''g1'' ''alice'' 0 2 scenario_joined) ! j
          \<noteq> board scenario_joined ! j} = 1
   \<and> board scenario_joined ! 0 = Null
   \<and> js_get (board (submitMove ''g1'' ''alice'' 0 2 scenario_joined)) 0 = Mark PlayerX
   \<and> currentPlayer scenario_joined = PlayerX
   \<and> currentPlayer (submitMove ''g1'' ''alice'' 0 2 scenario_joined) = PlayerO"
proof -
  have r: "\<not> rejects scenario_joined ''alice'' 0"
    by (simp add: rejects_def scenario_joined_simps role_of_def js_get_def replicate_9)
  have g: "''g1'' \<noteq> []" by simp
  with r have acc: "makeMove (in_game ''g1'' ''alice'' scenario_joined) 0 2 \<noteq> None"
    using accepted_iff [of "''g1''" "''alice''" scenario_joined 0 2] by blast
  have len: "length (board scenario_joined) = 9" "Undefined \<notin> set (board scenario_joined)"
    by (simp_all add: scenario_joined_simps)
  from accepted_move_one_cell [OF acc] len acc show ?thesis
    by (simp add: Let_def scenario_joined_simps other_def)
qed

lemma scenario_created_ok: "createMatch ''alice'' 0 = Some scenario_created"
  by (simp add: createMatch_def createNewGame_def initial_client_def truthy_id_def
      scenario_created_def)

lemma scenario_joined_ok: "joinMatch ''g1'' ''bob'' 1 scenario_created = scenario_joined"
  by (simp add: joinMatch_def joinGame_def initial_client_def truthy_id_def updateDoc_def
      or_keep_def no_fields_def scenario_created_def scenario_joined_def)

lemma scenario_moves_played:
  "play ''g1'' scenario_moves scenario_joined =
     Some (scenario_joined\<lparr>board := scenario_draw_board, currentPlayer := PlayerO,
             status := Finished, winner := Some Draw, lastMoveAt := 10\<rparr>)"
  by code_simp

theorem full_game_draw_witness:
  "createMatch ''alice'' 0 = Some scenario_created
   \<and> play ''g1'' scenario_moves (joinMatch ''g1'' ''bob'' 1 scenario_created) =
       Some (scenario_joined\<lparr>board := scenario_draw_board, currentPlayer := PlayerO,
               status := Finished, winner := Some Draw, lastMoveAt := 10\<rparr>)
   \<and> length scenario_moves = 9
   \<and> list_all (\<lambda>(a, i, t). i < 9) scenario_moves
   \<and> no_line scenario_draw_board
   \<and> status (scenario_joined\<lparr>board := scenario_draw_board, currentPlayer := PlayerO,
               status := Finished, winner := Some Draw, lastMoveAt := 10\<rparr>) = Finished
   \<and> winner (scenario_joined\<lparr>board := scenario_draw_board, currentPlayer := PlayerO,
               status := Finished, winner := Some Draw, lastMoveAt := 10\<rparr>) = Some Draw"
proof -
  let ?d = "scenario_joined\<lparr>board := scenario_draw_board, currentPlayer := PlayerO,
               status := Finished, winner := Some Draw, lastMoveAt := 10\<rparr>"
  have p: "play ''g1'' scenario_moves (joinMatch ''g1'' ''bob'' 1 scenario_created) = Some ?d"
    by (simp only: scenario_joined_ok scenario_moves_played)
  have l: "length scenario_moves = 9" by (simp add: scenario_moves_def)
  have i: "\<forall>(a, i, t) \<in> set scenario_moves. i < 9" by (simp add: scenario_moves_def)
  have n: "no_line (board ?d)" by (simp add: no_line_draw_board)
  have i': "list_all (\<lambda>(a, i, t). i < 9) scenario_moves" by (simp add: scenario_moves_def)
  from full_game_draw [OF scenario_created_ok p l i n] scenario_created_ok p l i' n
  show ?thesis by simp
qed

subsection \<open>Joining\<close>

lemma joinGame_other:
  assumes "db c" "userId c = Some joinerId" "joinerId \<noteq> []" "currentGameId c \<noteq> Some gameId"
    and "p1 \<noteq> Some joinerId"
  shows "joinGame c gameId p1 now =
     JoinWrite (no_fields\<lparr>u_player2Id := Some (Some joinerId),
                          u_status := Some InProgress,
                          u_lastMoveAt := Some now\<rparr>)"
  using assms by (auto simp: joinGame_def truthy_id_def)

lemma joinGame_own:
  assumes "db c" "userId c = Some joinerId" "joinerId \<noteq> []" "currentGameId c \<noteq> Some gameId"
  shows "joinGame c gameId (Some joinerId) now = CannotJoinOwnMatch"
  using assms by (auto simp: joinGame_def truthy_id_def)

lemma initial_client_simps:
  "db (initial_client uid)"
  "userId (initial_client uid) = Some uid"
  "currentGameId (initial_client uid) = None"
  by (simp_all add: initial_client_def)

lemma updateDoc_join:
  "updateDoc (no_fields\<lparr>u_player2Id := Some (Some joinerId), u_status := Some InProgress,
                        u_lastMoveAt := Some now\<rparr>) d =
     d\<lparr>player2Id := Some joinerId, status := InProgress, lastMoveAt := now\<rparr>"
  by (simp add: updateDoc_def or_keep_def no_fields_def)

lemma joinMatch_own:
  "joinerId \<noteq> [] \<Longrightarrow> player1Id d = Some joinerId \<Longrightarrow> joinMatch gameId joinerId now d = d"
  by (simp add: joinMatch_def joinGame_own initial_client_simps)

lemma joinMatch_other:
  "joinerId \<noteq> [] \<Longrightarrow> player1Id d \<noteq> Some joinerId \<Longrightarrow>
     joinMatch gameId joinerId now d =
       d\<lparr>player2Id := Some joinerId, status := InProgress, lastMoveAt := now\<rparr>"
  by (simp add: joinMatch_def joinGame_other initial_client_simps updateDoc_join)

lemma joinMatch_empty_id: "joinMatch gameId [] now d = d"
  by (simp add: joinMatch_def joinGame_def initial_client_simps truthy_id_def)

text \<open>
  C6. A signed-in user in the lobby who joins a match whose player 1 is the user gets the
  "cannot join your own game" outcome, no write is issued and the document stays as it
  is. With any other player 1, \<^verbatim>\<open>joinGame\<close> issues one write that sets player 2 to the
  joiner and the status to in progress (and stamps the time). After a creation by alice
  the status is waiting and player 2 is null; after bob's join the status is in progress
  and player 2 is bob.
\<close>

theorem joinMatch_own_or_other:
  assumes "joinerId \<noteq> []"
  shows
    "(player1Id d = Some joinerId \<longrightarrow>
        joinGame (initial_client joinerId) gameId (player1Id d) now = CannotJoinOwnMatch
        \<and> joinMatch gameId joinerId now d = d)
     \<and> (player1Id d \<noteq> Some joinerId \<longrightarrow>
        joinGame (initial_client joinerId) gameId (player1Id d) now =
          JoinWrite (no_fields\<lparr>u_player2Id := Some (Some joinerId),
                               u_status := Some InProgress,
                               u_lastMoveAt := Some now\<rparr>)
        \<and> joinMatch gameId joinerId now d =
            d\<lparr>player2Id := Some joinerId, status := InProgress, lastMoveAt := now\<rparr>)
     \<and> (createMatch ''alice'' t0 = Some dc \<longrightarrow>
        status dc = Waiting \<and> player2Id dc = None
        \<and> status (joinMatch gameId ''bob'' t1 dc) = InProgress
        \<and> player2Id (joinMatch gameId ''bob'' t1 dc) = Some ''bob'')"
proof (intro conjI impI)
  assume own: "player1Id d = Some joinerId"
  show "joinGame (initial_client joinerId) gameId (player1Id d) now = CannotJoinOwnMatch"
    using assms by (simp add: own joinGame_own initial_client_simps)
  show "joinMatch gameId joinerId now d = d"
    using assms own by (rule joinMatch_own)
next
  assume oth: "player1Id d \<noteq> Some joinerId"
  show "joinGame (initial_client joinerId) gameId (player1Id d) now =
          JoinWrite (no_fields\<lparr>u_player2Id := Some (Some joinerId),
                               u_status := Some InProgress,
                               u_lastMoveAt := Some now\<rparr>)"
    using assms oth by (simp add: joinGame_other initial_client_simps)
  show "joinMatch gameId joinerId now d =
      d\<lparr>player2Id := Some joinerId, status := InProgress, lastMoveAt := now\<rparr>"
    using assms oth by (rule joinMatch_other)
next
  assume c: "createMatch ''alice'' t0 = Some dc"
  note dc = createMatch_Some [OF c]
  from dc show "status dc = Waiting" by simp
  from dc show "player2Id dc = None" by simp
  from dc have p1: "player1Id dc \<noteq> Some ''bob''" by simp
  have b: "''bob'' \<noteq> []" by simp
  show "status (joinMatch gameId ''bob'' t1 dc) = InProgress"
    by (simp add: joinMatch_other [OF b p1])
  show "player2Id (joinMatch gameId ''bob'' t1 dc) = Some ''bob''"
    by (simp add: joinMatch_other [OF b p1])
qed

theorem joinMatch_own_or_other_witness:
  "joinGame (initial_client ''alice'') ''g1'' (player1Id scenario_created) 1 = CannotJoinOwnMatch
   \<and> joinMatch ''g1'' ''alice'' 1 scenario_created = scenario_created
   \<and> joinMatch ''g1'' ''bob'' 1 scenario_created = scenario_joined
   \<and> createMatch ''alice'' 0 = Some scenario_created
   \<and> status scenario_created = Waiting \<and> player2Id scenario_created = None
   \<and> status (joinMatch ''g1'' ''bob'' 1 scenario_created) = InProgress
   \<and> player2Id (joinMatch ''g1'' ''bob'' 1 scenario_created) = Some ''bob''"
proof -
  have a: "''alice'' \<noteq> []" and b: "''bob'' \<noteq> []" by simp_all
  have p: "player1Id scenario_created = Some ''alice''"
    "player1Id scenario_created \<noteq> Some ''bob''"
    by (simp_all add: scenario_created_def)
  note own = joinMatch_own_or_other [OF a, where d = scenario_created and gameId = "''g1''"
      and now = 1 and ?t0.0 = 0 and dc = scenario_created and ?t1.0 = 1]
  note oth = joinMatch_own_or_other [OF b, where d = scenario_created and gameId = "''g1''"
      and now = 1]
  from oth p(2) have "joinMatch ''g1'' ''bob'' 1 scenario_created =
      scenario_created\<lparr>player2Id := Some ''bob'', status := InProgress, lastMoveAt := 1\<rparr>"
    by blast
  then have j: "joinMatch ''g1'' ''bob'' 1 scenario_created = scenario_joined"
    by (simp add: scenario_created_def scenario_joined_def)
  from own p(1) scenario_created_ok j show ?thesis by simp
qed

text \<open>
  C10. \<^verbatim>\<open>joinGame\<close> looks at nothing in the document but player 1: for a signed-in
  client that does not have this game open and is not its player 1, it issues the write
  that sets player 2 to the joiner and the status to in progress, whatever the status,
  the winner and player 2 of the document are; the winner, the board and the current
  player are left as they were.
\<close>

theorem joinGame_no_state_guard:
  assumes "db c" and "userId c = Some joinerId" and "joinerId \<noteq> []"
    and "currentGameId c \<noteq> Some gameId" and "player1Id d \<noteq> Some joinerId"
  shows
    "(\<exists>u. joinGame c gameId (player1Id d) now = JoinWrite u
          \<and> updateDoc u d = d\<lparr>player2Id := Some joinerId, status := InProgress, lastMoveAt := now\<rparr>)
     \<and> joinMatch gameId joinerId now d =
          d\<lparr>player2Id := Some joinerId, status := InProgress, lastMoveAt := now\<rparr>
     \<and> player2Id (joinMatch gameId joinerId now d) = Some joinerId
     \<and> status (joinMatch gameId joinerId now d) = InProgress
     \<and> winner (joinMatch gameId joinerId now d) = winner d
     \<and> board (joinMatch gameId joinerId now d) = board d
     \<and> currentPlayer (joinMatch gameId joinerId now d) = currentPlayer d"
proof -
  have "joinGame c gameId (player1Id d) now =
     JoinWrite (no_fields\<lparr>u_player2Id := Some (Some joinerId),
                          u_status := Some InProgress,
                          u_lastMoveAt := Some now\<rparr>)"
    using assms by (rule joinGame_other)
  then have "\<exists>u. joinGame c gameId (player1Id d) now = JoinWrite u
      \<and> updateDoc u d = d\<lparr>player2Id := Some joinerId, status := InProgress, lastMoveAt := now\<rparr>"
    by (simp add: updateDoc_join)
  moreover note joinMatch_other [OF assms(3) assms(5), of gameId now]
  ultimately show ?thesis by simp
qed

lemma scenario_won_simps:
  "player1Id scenario_won = Some ''alice''"
  "player2Id scenario_won = Some ''bob''"
  "status scenario_won = Finished"
  "winner scenario_won = Some (Won PlayerX)"
  by (simp_all add: scenario_won_def)

theorem joinGame_no_state_guard_witness:
  "status scenario_won = Finished \<and> winner scenario_won = Some (Won PlayerX)
   \<and> player2Id scenario_won = Some ''bob''
   \<and> joinMatch ''g1'' ''carol'' 9 scenario_won =
       scenario_won\<lparr>player2Id := Some ''carol'', status := InProgress, lastMoveAt := 9\<rparr>
   \<and> status (joinMatch ''g1'' ''carol'' 9 scenario_won) = InProgress
   \<and> winner (joinMatch ''g1'' ''carol'' 9 scenario_won) = Some (Won PlayerX)
   \<and> player2Id (joinMatch ''g1'' ''carol'' 9 scenario_won) = Some ''carol''"
proof -
  have "db (initial_client ''carol'')" "userId (initial_client ''carol'') = Some ''carol''"
    "''carol'' \<noteq> []" "currentGameId (initial_client ''carol'') \<noteq> Some ''g1''"
    "player1Id scenario_won \<noteq> Some ''carol''"
    by (simp_all add: initial_client_simps scenario_won_simps)
  from joinGame_no_state_guard [OF this, of 9] show ?thesis
    by (simp add: scenario_won_simps)
qed

subsection \<open>Leaving\<close>

lemma leaveMatch_unfold:
  "g \<noteq> [] \<Longrightarrow> leaveMatch g a d =
     (if player1Id d = Some a \<and> \<not> truthy_id (player2Id d) then None
      else if player1Id d = Some a then
        Some (d\<lparr>player1Id := player2Id d, player2Id := None, status := Waiting, winner := None\<rparr>)
      else if player2Id d = Some a then
        Some (d\<lparr>player2Id := None, status := Waiting, winner := None\<rparr>)
      else Some d)"
  by (simp add: leaveMatch_def leaveGame_def in_game_simps truthy_id_def updateDoc_def
      or_keep_def no_fields_def)

lemma leaveMatch_empty_id: "leaveMatch [] a d = Some d"
  by (simp add: leaveMatch_def leaveGame_def in_game_simps truthy_id_def)

text \<open>
  C7. For a client that has the game open: when the leaver is player 1 and player 2 is
  null, the document is deleted, in particular right after the leaver created it; when
  the leaver is player 1 and there is a player 2, that player becomes player 1, player 2
  is cleared, the status becomes waiting and the winner is cleared; when the leaver is
  player 2, player 2 is cleared, the status becomes waiting and the winner is cleared.
  Whenever the document is not deleted, its board and current player are as before.
\<close>

theorem leaveMatch_cases:
  assumes "gameId \<noteq> []"
  shows
    "(player1Id d = Some leaverId \<and> player2Id d = None \<longrightarrow> leaveMatch gameId leaverId d = None)
     \<and> (createMatch leaverId t0 = Some dc \<longrightarrow> leaveMatch gameId leaverId dc = None)
     \<and> (player1Id d = Some leaverId \<and> player2Id d = Some p2 \<and> p2 \<noteq> [] \<longrightarrow>
          leaveMatch gameId leaverId d =
            Some (d\<lparr>player1Id := Some p2, player2Id := None, status := Waiting, winner := None\<rparr>))
     \<and> (player2Id d = Some leaverId \<and> leaverId \<noteq> [] \<and> player1Id d \<noteq> Some leaverId \<longrightarrow>
          leaveMatch gameId leaverId d =
            Some (d\<lparr>player2Id := None, status := Waiting, winner := None\<rparr>))
     \<and> (player2Id d = Some leaverId \<and> leaverId \<noteq> [] \<longrightarrow>
          (\<exists>d'. leaveMatch gameId leaverId d = Some d' \<and> player2Id d' = None
                \<and> status d' = Waiting \<and> winner d' = None \<and> board d' = board d))
     \<and> (leaveMatch gameId leaverId d = Some d' \<longrightarrow>
          board d' = board d \<and> currentPlayer d' = currentPlayer d)"
proof (intro conjI impI)
  assume "player1Id d = Some leaverId \<and> player2Id d = None"
  then show "leaveMatch gameId leaverId d = None"
    by (simp add: leaveMatch_unfold [OF assms] truthy_id_def)
next
  assume "createMatch leaverId t0 = Some dc"
  from createMatch_Some [OF this] show "leaveMatch gameId leaverId dc = None"
    by (simp add: leaveMatch_unfold [OF assms] truthy_id_def)
next
  assume "player1Id d = Some leaverId \<and> player2Id d = Some p2 \<and> p2 \<noteq> []"
  then show "leaveMatch gameId leaverId d =
      Some (d\<lparr>player1Id := Some p2, player2Id := None, status := Waiting, winner := None\<rparr>)"
    by (simp add: leaveMatch_unfold [OF assms] truthy_id_def)
next
  assume "player2Id d = Some leaverId \<and> leaverId \<noteq> [] \<and> player1Id d \<noteq> Some leaverId"
  then show "leaveMatch gameId leaverId d =
      Some (d\<lparr>player2Id := None, status := Waiting, winner := None\<rparr>)"
    by (simp add: leaveMatch_unfold [OF assms])
next
  assume "player2Id d = Some leaverId \<and> leaverId \<noteq> []"
  then show "\<exists>d'. leaveMatch gameId leaverId d = Some d' \<and> player2Id d' = None
      \<and> status d' = Waiting \<and> winner d' = None \<and> board d' = board d"
    by (simp add: leaveMatch_unfold [OF assms] truthy_id_def)
next
  assume l: "leaveMatch gameId leaverId d = Some d'"
  then show "board d' = board d"
    by (auto simp: leaveMatch_unfold [OF assms] split: if_splits)
  from l show "currentPlayer d' = currentPlayer d"
    by (auto simp: leaveMatch_unfold [OF assms] split: if_splits)
qed

theorem leaveMatch_cases_witness:
  "leaveMatch ''g1'' ''alice'' scenario_created = None
   \<and> createMatch ''alice'' 0 = Some scenario_created
   \<and> leaveMatch ''g1'' ''alice'' scenario_won =
       Some (scenario_won\<lparr>player1Id := Some ''bob'', player2Id := None, status := Waiting,
                          winner := None\<rparr>)
   \<and> leaveMatch ''g1'' ''bob'' scenario_won =
       Some (scenario_won\<lparr>player2Id := None, status := Waiting, winner := None\<rparr>)
   \<and> board (scenario_won\<lparr>player2Id := None, status := Waiting, winner := None\<rparr>) = scenario_board"
proof -
  have g: "''g1'' \<noteq> []" by simp
  note a = leaveMatch_cases [OF g, where d = scenario_created and leaverId = "''alice''"
      and ?t0.0 = 0 and dc = scenario_created]
  note b = leaveMatch_cases [OF g, where d = scenario_won and leaverId = "''alice''"
      and ?p2.0 = "''bob''"]
  note c = leaveMatch_cases [OF g, where d = scenario_won and leaverId = "''bob''"
      and d' = "scenario_won\<lparr>player2Id := None, status := Waiting, winner := None\<rparr>"]
  have 1: "leaveMatch ''g1'' ''alice'' scenario_created = None"
    using a scenario_created_ok by blast
  have "player1Id scenario_won = Some ''alice'' \<and> player2Id scenario_won = Some ''bob''
      \<and> ''bob'' \<noteq> []"
    by (simp add: scenario_won_simps)
  with b have 2: "leaveMatch ''g1'' ''alice'' scenario_won =
       Some (scenario_won\<lparr>player1Id := Some ''bob'', player2Id := None, status := Waiting,
                          winner := None\<rparr>)"
    by blast
  have "player2Id scenario_won = Some ''bob'' \<and> ''bob'' \<noteq> []
      \<and> player1Id scenario_won \<noteq> Some ''bob''"
    by (simp add: scenario_won_simps)
  with c have 3: "leaveMatch ''g1'' ''bob'' scenario_won =
       Some (scenario_won\<lparr>player2Id := None, status := Waiting, winner := None\<rparr>)"
    by blast
  with c have 4: "board (scenario_won\<lparr>player2Id := None, status := Waiting, winner := None\<rparr>)
      = board scenario_won"
    by blast
  have "board scenario_won = scenario_board" by (simp add: scenario_won_def)
  with 1 2 3 4 scenario_created_ok show ?thesis by simp
qed

subsection \<open>Resetting, and what holds of every reachable document\<close>

lemma resetMatch_unfold:
  "g \<noteq> [] \<Longrightarrow> resetMatch g a now d =
     (if role_of d (Some a) = None then d
      else d\<lparr>board := replicate 9 Null, currentPlayer := PlayerX, status := InProgress,
             winner := None, lastMoveAt := now\<rparr>)"
  by (simp add: resetMatch_def resetCurrentGame_def in_game_simps truthy_id_def updateDoc_def
      or_keep_def no_fields_def)

lemma resetMatch_empty_id: "resetMatch [] a now d = d"
  by (simp add: resetMatch_def resetCurrentGame_def in_game_simps truthy_id_def)

lemma submitMove_empty_id: "submitMove [] a i now d = d"
  by (simp add: submitMove_def makeMove_empty_id)

lemma weak_inv_created: "createMatch ownerId now = Some d \<Longrightarrow> weak_inv d"
  by (drule createMatch_Some) (simp add: weak_inv_def)

lemma weak_inv_join: "weak_inv d \<Longrightarrow> weak_inv (joinMatch g j now d)"
proof (cases "j \<noteq> [] \<and> player1Id d \<noteq> Some j")
  case True
  then show ?thesis by (simp add: joinMatch_other weak_inv_def)
next
  case False
  assume "weak_inv d"
  with False show ?thesis
    by (cases "j = []") (auto simp: joinMatch_empty_id joinMatch_own)
qed

lemma weak_inv_move: "weak_inv d \<Longrightarrow> weak_inv (submitMove g a i now d)"
proof (cases "g \<noteq> [] \<and> \<not> rejects d a i")
  case True
  then have g: "g \<noteq> []" and r: "\<not> rejects d a i" by simp_all
  assume "weak_inv d"
  then show ?thesis by (simp add: submitMove_accept [OF g r] weak_inv_def)
next
  case False
  assume "weak_inv d"
  with False show ?thesis
    by (cases "g = []") (auto simp: submitMove_empty_id submitMove_reject)
qed

lemma weak_inv_leave: "weak_inv d \<Longrightarrow> leaveMatch g a d = Some d' \<Longrightarrow> weak_inv d'"
  by (cases "g = []")
    (auto simp: leaveMatch_empty_id leaveMatch_unfold weak_inv_def split: if_splits)

lemma weak_inv_reset: "weak_inv d \<Longrightarrow> weak_inv (resetMatch g a now d)"
  by (cases "g = []") (auto simp: resetMatch_empty_id resetMatch_unfold weak_inv_def)

lemma reachable_weak_inv: "reachable g d \<Longrightarrow> weak_inv d"
proof (induction rule: reachable.induct)
  case (created ownerId now d)
  then show ?case by (rule weak_inv_created)
next
  case (joined d joinerId now)
  then show ?case by (simp add: weak_inv_join)
next
  case (moved d actorId i now)
  then show ?case by (simp add: weak_inv_move)
next
  case (left d leaverId d')
  then show ?case by (auto intro: weak_inv_leave)
next
  case (reset d actorId now)
  then show ?case by (simp add: weak_inv_reset)
qed

lemma reachable_play: "reachable g d \<Longrightarrow> play g ms d = Some d' \<Longrightarrow> reachable g d'"
proof (induction ms arbitrary: d)
  case Nil
  then show ?case by simp
next
  case (Cons m ms)
  obtain a i t where m: "m = (a, i, t)" by (cases m)
  from Cons.prems(2) m have rest: "play g ms (submitMove g a i t d) = Some d'"
    by (simp split: if_splits)
  from Cons.prems(1) have "reachable g (submitMove g a i t d)" by (rule reachable.moved)
  from Cons.IH [OF this rest] show ?case .
qed

text \<open>
  C4, as the code has it. In every document reachable from a creation by joins, moves,
  leaves and resets, a finished status implies a winner, and a waiting status implies
  that player 2 is null. A reset by a client that holds a role sets the status to in
  progress and the winner to null and leaves the players as they are: after it the status
  is finished exactly when there is a winner, and it is waiting exactly when player 2 is
  null provided player 2 is not null.
\<close>

theorem reachable_invariants:
  assumes "reachable g d"
  shows
    "(status d = Finished \<longrightarrow> winner d \<noteq> None)
     \<and> (status d = Waiting \<longrightarrow> player2Id d = None)
     \<and> (g \<noteq> [] \<and> role_of d (Some actorId) \<noteq> None \<longrightarrow>
          (let d' = resetMatch g actorId now d in
             reachable g d'
             \<and> status d' = InProgress \<and> winner d' = None
             \<and> player1Id d' = player1Id d \<and> player2Id d' = player2Id d
             \<and> (status d' = Finished \<longleftrightarrow> winner d' \<noteq> None)
             \<and> (player2Id d \<noteq> None \<longrightarrow> (status d' = Waiting \<longleftrightarrow> player2Id d' = None))))"
proof (intro conjI impI)
  from reachable_weak_inv [OF assms]
  show "winner d \<noteq> None" if "status d = Finished" using that by (simp add: weak_inv_def)
  from reachable_weak_inv [OF assms]
  show "player2Id d = None" if "status d = Waiting" using that by (simp add: weak_inv_def)
next
  assume a: "g \<noteq> [] \<and> role_of d (Some actorId) \<noteq> None"
  then have g: "g \<noteq> []" and role: "role_of d (Some actorId) \<noteq> None" by blast+
  have eq: "resetMatch g actorId now d =
      d\<lparr>board := replicate 9 Null, currentPlayer := PlayerX, status := InProgress,
        winner := None, lastMoveAt := now\<rparr>"
    unfolding resetMatch_unfold [OF g] using role by (simp only: if_False)
  have "reachable g (resetMatch g actorId now d)"
    using assms by (rule reachable.reset)
  then show "let d' = resetMatch g actorId now d in
             reachable g d'
             \<and> status d' = InProgress \<and> winner d' = None
             \<and> player1Id d' = player1Id d \<and> player2Id d' = player2Id d
             \<and> (status d' = Finished \<longleftrightarrow> winner d' \<noteq> None)
             \<and> (player2Id d \<noteq> None \<longrightarrow> (status d' = Waiting \<longleftrightarrow> player2Id d' = None))"
    unfolding Let_def eq by simp
qed

lemma scenario_joined_reachable: "reachable ''g1'' scenario_joined"
proof -
  have "reachable ''g1'' scenario_created"
    using scenario_created_ok by (rule reachable.created)
  then have "reachable ''g1'' (joinMatch ''g1'' ''bob'' 1 scenario_created)"
    by (rule reachable.joined)
  then show ?thesis by (simp only: scenario_joined_ok)
qed

lemma scenario_win_played: "play ''g1'' scenario_win_moves scenario_joined = Some scenario_won"
  by code_simp

lemma scenario_won_reachable: "reachable ''g1'' scenario_won"
  using scenario_joined_reachable scenario_win_played by (rule reachable_play)

theorem reachable_invariants_witness:
  "reachable ''g1'' scenario_won
   \<and> status scenario_won = Finished \<and> winner scenario_won \<noteq> None
   \<and> role_of scenario_won (Some ''bob'') \<noteq> None
   \<and> reachable ''g1'' (resetMatch ''g1'' ''bob'' 7 scenario_won)
   \<and> status (resetMatch ''g1'' ''bob'' 7 scenario_won) = InProgress
   \<and> winner (resetMatch ''g1'' ''bob'' 7 scenario_won) = None
   \<and> player2Id (resetMatch ''g1'' ''bob'' 7 scenario_won) = Some ''bob''"
proof -
  have r: "role_of scenario_won (Some ''bob'') \<noteq> None"
    by (simp add: role_of_def scenario_won_simps)
  have g: "''g1'' \<noteq> []" by simp
  from reachable_invariants [OF scenario_won_reachable, of "''bob''" 7] r g scenario_won_reachable
  show ?thesis by (simp add: Let_def scenario_won_simps)
qed

text \<open>
  The two equivalences of the specification do not hold of every reachable document.
  After a creation by alice, a reset by alice, who holds role X, gives a document in
  progress whose player 2 is null. After alice has won, a join by carol gives a document
  in progress whose winner is still X.
\<close>

theorem reset_by_sole_player_counterexample:
  "reachable ''g1'' (resetMatch ''g1'' ''alice'' 1 scenario_created)
   \<and> player2Id (resetMatch ''g1'' ''alice'' 1 scenario_created) = None
   \<and> status (resetMatch ''g1'' ''alice'' 1 scenario_created) = InProgress
   \<and> \<not> (status (resetMatch ''g1'' ''alice'' 1 scenario_created) = Waiting
          \<longleftrightarrow> player2Id (resetMatch ''g1'' ''alice'' 1 scenario_created) = None)
   \<and> reachable ''g1'' (joinMatch ''g1'' ''carol'' 9 scenario_won)
   \<and> status (joinMatch ''g1'' ''carol'' 9 scenario_won) = InProgress
   \<and> winner (joinMatch ''g1'' ''carol'' 9 scenario_won) = Some (Won PlayerX)
   \<and> \<not> (status (joinMatch ''g1'' ''carol'' 9 scenario_won) = Finished
          \<longleftrightarrow> winner (joinMatch ''g1'' ''carol'' 9 scenario_won) \<noteq> None)"
proof -
  have "reachable ''g1'' scenario_created"
    using scenario_created_ok by (rule reachable.created)
  then have r1: "reachable ''g1'' (resetMatch ''g1'' ''alice'' 1 scenario_created)"
    by (rule reachable.reset)
  have g: "''g1'' \<noteq> []" by simp
  have e1: "resetMatch ''g1'' ''alice'' 1 scenario_created =
      scenario_created\<lparr>board := replicate 9 Null, currentPlayer := PlayerX,
        status := InProgress, winner := None, lastMoveAt := 1\<rparr>"
    by (simp add: resetMatch_unfold [OF g] role_of_def scenario_created_def)
  have r2: "reachable ''g1'' (joinMatch ''g1'' ''carol'' 9 scenario_won)"
    using scenario_won_reachable by (rule reachable.joined)
  have c: "''carol'' \<noteq> []" "player1Id scenario_won \<noteq> Some ''carol''"
    by (simp_all add: scenario_won_simps)
  note e2 = joinMatch_other [OF c, of "''g1''" 9]
  have s1: "player2Id (resetMatch ''g1'' ''alice'' 1 scenario_created) = None"
    "status (resetMatch ''g1'' ''alice'' 1 scenario_created) = InProgress"
    unfolding e1 by (simp_all add: scenario_created_def)
  have s2: "status (joinMatch ''g1'' ''carol'' 9 scenario_won) = InProgress"
    "winner (joinMatch ''g1'' ''carol'' 9 scenario_won) = Some (Won PlayerX)"
    unfolding e2 by (simp_all add: scenario_won_simps)
  from r1 r2 s1 s2 show ?thesis by simp
qed

section \<open>Properties of the compass\<close>

subsection \<open>The range of the bearing\<close>

lemma atan2_range: "- pi < atan2 y x \<and> atan2 y x \<le> pi"
proof -
  have lo: "- (pi / 2) < arctan (y / x)" and hi: "arctan (y / x) < pi / 2"
    by (rule arctan_lbound, rule arctan_ubound)
  have pos: "0 < pi" by (rule pi_gt_zero)
  consider "0 < x" | "x < 0" "0 \<le> y" | "x < 0" "y < 0" | "x = 0"
    by linarith
  then show ?thesis
  proof cases
    case 1
    then have "atan2 y x = arctan (y / x)" by (simp add: atan2_def)
    with lo hi pos show ?thesis by linarith
  next
    case 2
    then have "y / x \<le> 0" by (simp add: divide_nonneg_neg)
    then have le: "arctan (y / x) \<le> 0" by (simp add: arctan_le_zero_iff)
    from 2 have "atan2 y x = arctan (y / x) + pi" by (simp add: atan2_def)
    with lo le pos show ?thesis by linarith
  next
    case 3
    then have "0 < y / x" by (simp add: divide_neg_neg)
    then have ge: "0 < arctan (y / x)" by (simp add: zero_less_arctan_iff)
    from 3 have "atan2 y x = arctan (y / x) - pi" by (simp add: atan2_def)
    with hi ge pos show ?thesis by linarith
  next
    case 4
    then have "atan2 y x = pi / 2 \<or> atan2 y x = - (pi / 2) \<or> atan2 y x = 0"
      by (simp add: atan2_def)
    then consider "atan2 y x = pi / 2" | "atan2 y x = - (pi / 2)" | "atan2 y x = 0"
      by blast
    then show ?thesis using pos by cases linarith+
  qed
qed

lemma toDegrees_range:
  assumes "- pi < r" "r \<le> pi"
  shows "- 180 < toDegrees r \<and> toDegrees r \<le> 180"
proof -
  have pos: "0 < pi" by (rule pi_gt_zero)
  have d: "toDegrees r = 180 * (r / pi)" by (simp add: toDegrees_def)
  have "-1 < r / pi" using assms(1) pos by (simp add: pos_less_divide_eq)
  moreover have "r / pi \<le> 1" using assms(2) pos by (simp add: pos_divide_le_eq)
  ultimately show ?thesis unfolding d by linarith
qed

lemma js_rem_360:
  assumes "180 < v" "v \<le> 540"
  shows "0 \<le> js_rem v 360 \<and> js_rem v 360 < 360"
proof (cases "v < 360")
  case True
  with assms have "\<lfloor>v / 360\<rfloor> = 0" by (simp add: floor_eq_iff)
  with assms True show ?thesis by (simp add: js_rem_def trunc_def)
next
  case False
  with assms have "\<lfloor>v / 360\<rfloor> = 1" by (simp add: floor_eq_iff)
  with assms False show ?thesis by (simp add: js_rem_def trunc_def)
qed

lemma getQiblaAngle_range:
  "0 \<le> getQiblaAngle lat1 lon1 lat2 lon2 \<and> getQiblaAngle lat1 lon1 lat2 lon2 < 360"
proof -
  define b where "b = toDegrees (atan2 (sin (toRadians lon2 - toRadians lon1) * cos (toRadians lat2))
     (cos (toRadians lat1) * sin (toRadians lat2)
       - sin (toRadians lat1) * cos (toRadians lat2) * cos (toRadians lon2 - toRadians lon1)))"
  have "- 180 < b \<and> b \<le> 180"
    unfolding b_def using atan2_range by (intro toDegrees_range) auto
  then have "180 < b + 360" "b + 360 \<le> 540" by simp_all
  from js_rem_360 [OF this] show ?thesis
    by (simp add: getQiblaAngle_def Let_def b_def)
qed

subsection \<open>Particular bearings\<close>

lemma js_rem_360_360: "js_rem 360 360 = 0"
  by (simp add: js_rem_def trunc_def)

lemma js_rem_450: "js_rem 450 360 = 90"
proof -
  have "\<lfloor>450 / 360 :: real\<rfloor> = 1" by (simp add: floor_eq_iff)
  then show ?thesis by (simp add: js_rem_def trunc_def)
qed

lemma getQiblaAngle_same: "getQiblaAngle lat lon lat lon = 0"
  by (simp add: getQiblaAngle_def Let_def atan2_def toDegrees_def js_rem_360_360)

lemma toRadians_0: "toRadians 0 = 0"
  by (simp add: toRadians_def)

lemma sin_toRadians_90: "sin (toRadians 90) = 1"
proof -
  have "toRadians 90 = pi / 2" by (simp add: toRadians_def)
  then show ?thesis by (simp only: sin_pi_half)
qed

lemma cos_toRadians_90: "cos (toRadians 90) = 0"
proof -
  have "toRadians 90 = pi / 2" by (simp add: toRadians_def)
  then show ?thesis by (simp only: cos_pi_half)
qed

lemma toDegrees_half_pi: "toDegrees (pi / 2) = 90"
  by (simp add: toDegrees_def)

lemma getQiblaAngle_east: "getQiblaAngle 0 0 0 90 = 90"
  by (simp add: getQiblaAngle_def Let_def toRadians_0 sin_toRadians_90 atan2_def
      toDegrees_half_pi js_rem_450)

lemma getQiblaAngle_north: "getQiblaAngle 0 0 90 0 = 0"
  by (simp add: getQiblaAngle_def Let_def toRadians_0 sin_toRadians_90 cos_toRadians_90 atan2_def
      toDegrees_def js_rem_360_360)

text \<open>
  C3. In exact arithmetic the bearing computed by \<^verbatim>\<open>getQiblaAngle\<close> lies in \<open>[0, 360)\<close>
  for all four coordinates; it is 0 from a point to itself; from (0, 0) it is 90 to
  (0, 90) and 0 to the north pole (90, 0).
\<close>

theorem getQiblaAngle_bearing:
  "0 \<le> getQiblaAngle lat1 lon1 lat2 lon2
   \<and> getQiblaAngle lat1 lon1 lat2 lon2 < 360
   \<and> getQiblaAngle lat lon lat lon = 0
   \<and> getQiblaAngle 0 0 0 90 = 90
   \<and> getQiblaAngle 0 0 90 0 = 0"
  using getQiblaAngle_range [of lat1 lon1 lat2 lon2]
  by (simp add: getQiblaAngle_same getQiblaAngle_east getQiblaAngle_north)

subsection \<open>The rotation of the compass\<close>

lemma toFixed2_close: "\<bar>toFixed2 n - n\<bar> \<le> 1 / 200"
proof -
  have fl: "\<bar>of_int \<lfloor>x * 100 + 1 / 2\<rfloor> / 100 - x\<bar> \<le> 1 / 200" for x :: real
  proof -
    have "of_int \<lfloor>x * 100 + 1 / 2\<rfloor> \<le> x * 100 + 1 / 2" by (rule of_int_floor_le)
    moreover have "x * 100 + 1 / 2 < of_int \<lfloor>x * 100 + 1 / 2\<rfloor> + 1" by linarith
    ultimately show ?thesis by linarith
  qed
  consider "10 ^ 21 \<le> \<bar>n\<bar>" | "\<not> 10 ^ 21 \<le> \<bar>n\<bar>" "n < 0" | "\<not> 10 ^ 21 \<le> \<bar>n\<bar>" "\<not> n < 0"
    by blast
  then show ?thesis
  proof cases
    case 1
    then show ?thesis by (simp add: toFixed2_def)
  next
    case 2
    then have "toFixed2 n - n = - (of_int \<lfloor>(- n) * 100 + 1 / 2\<rfloor> / 100 - (- n))"
      by (simp add: toFixed2_def)
    with fl [of "- n"] show ?thesis by (simp only: abs_minus_cancel)
  next
    case 3
    then have e: "toFixed2 n = of_int \<lfloor>n * 100 + 1 / 2\<rfloor> / 100"
      by (simp add: toFixed2_def)
    show ?thesis unfolding e by (rule fl)
  qed
qed

lemma handleOrientation_textContent: "textContent (handleOrientation alpha p) = textContent p"
  by (cases alpha) (simp_all add: handleOrientation_def Let_def)

lemma orientations_textContent: "textContent (orientations alphas p) = textContent p"
  unfolding orientations_def
  by (induction alphas arbitrary: p) (simp_all add: handleOrientation_textContent)

lemma showPosition_textContent:
  "textContent (showPosition coords p) =
     toFixed2 (getQiblaAngle (fst coords) (snd coords) qiblaLat qiblaLon)"
  by (simp add: showPosition_def Let_def)

text \<open>
  C9, as the code has it. The handler reads the bearing back from the text of the
  direction label, where \<^verbatim>\<open>showPosition\<close> wrote it with two decimals. For an event with
  a heading \<open>alpha\<close>, after any earlier events, the rotation it sets is that displayed
  number minus \<open>alpha\<close>, not normalised; the displayed number is within 0.005 of the
  bearing \<^verbatim>\<open>showPosition\<close> computed and rotated the compass by. An event whose heading
  is null leaves the page as it is.
\<close>

theorem handleOrientation_rotation:
  "rotation (handleOrientation (Some alpha) (orientations alphas (showPosition coords p))) =
     toFixed2 (getQiblaAngle (fst coords) (snd coords) qiblaLat qiblaLon) - alpha
   \<and> \<bar>toFixed2 (getQiblaAngle (fst coords) (snd coords) qiblaLat qiblaLon)
        - getQiblaAngle (fst coords) (snd coords) qiblaLat qiblaLon\<bar> \<le> 1 / 200
   \<and> rotation (showPosition coords p) = getQiblaAngle (fst coords) (snd coords) qiblaLat qiblaLon
   \<and> handleOrientation None q = q"
proof -
  have "rotation (handleOrientation (Some alpha) (orientations alphas (showPosition coords p))) =
      textContent (orientations alphas (showPosition coords p)) - alpha"
    by (simp add: handleOrientation_def Let_def)
  then have "rotation (handleOrientation (Some alpha) (orientations alphas (showPosition coords p))) =
     toFixed2 (getQiblaAngle (fst coords) (snd coords) qiblaLat qiblaLon) - alpha"
    by (simp only: orientations_textContent showPosition_textContent)
  moreover have "rotation (showPosition coords p) =
      getQiblaAngle (fst coords) (snd coords) qiblaLat qiblaLon"
    by (simp add: showPosition_def Let_def)
  moreover have "handleOrientation None q = q"
    by (simp add: handleOrientation_def)
  ultimately show ?thesis using toFixed2_close by blast
qed

subsection \<open>The bearing from the north pole\<close>

lemma quarter_turn_bounds:
  assumes "0 < deg" "deg < 90"
  shows "0 < toRadians deg" "toRadians deg < pi / 2"
proof -
  have pos: "0 < pi" by (rule pi_gt_zero)
  show "0 < toRadians deg" using assms(1) pos by (simp add: toRadians_def)
  have "toRadians deg = pi / 2 * (deg / 90)" by (simp add: toRadians_def)
  also have "\<dots> < pi / 2 * 1"
    using assms pos by (intro mult_strict_left_mono) simp_all
  finally show "toRadians deg < pi / 2" by simp
qed

lemma toDegrees_toRadians: "toDegrees (pi - toRadians deg) = 180 - deg"
  by (simp add: toDegrees_def toRadians_def field_simps)

lemma getQiblaAngle_from_pole:
  assumes "0 < lat2" "lat2 < 90" "0 < lon2" "lon2 < 90"
  shows "getQiblaAngle 90 0 lat2 lon2 = 180 - lon2"
proof -
  let ?l = "toRadians lat2" and ?d = "toRadians lon2"
  note lb = quarter_turn_bounds [OF assms(1,2)] and db = quarter_turn_bounds [OF assms(3,4)]
  have cl: "0 < cos ?l" using lb by (intro cos_gt_zero_pi) simp_all
  have cd: "0 < cos ?d" using db by (intro cos_gt_zero_pi) simp_all
  have sd: "0 < sin ?d" using db pi_gt_zero by (intro sin_gt_zero) simp_all
  let ?y = "sin ?d * cos ?l" and ?x = "- (cos ?l * cos ?d)"
  have x: "?x < 0" using cl cd by simp
  have y: "0 \<le> ?y" using cl sd by simp
  have "?y / ?x = - tan ?d"
    using cl cd by (simp add: tan_def field_simps)
  then have "arctan (?y / ?x) = - ?d"
    using db by (simp add: arctan_minus arctan_tan)
  with x y have a: "atan2 ?y ?x = pi - ?d"
    unfolding atan2_def by simp
  have v: "180 - lon2 + 360 = 540 - lon2" by simp
  have "\<lfloor>(540 - lon2) / 360\<rfloor> = 1"
    using assms(3,4) by (simp add: floor_eq_iff)
  then have r: "js_rem (540 - lon2) 360 = 180 - lon2"
    using assms(4) by (simp add: js_rem_def trunc_def)
  have "getQiblaAngle 90 0 lat2 lon2 = js_rem (toDegrees (atan2 ?y ?x) + 360) 360"
    by (simp add: getQiblaAngle_def Let_def toRadians_0 sin_toRadians_90 cos_toRadians_90)
  also have "\<dots> = 180 - lon2"
    by (simp only: a toDegrees_toRadians v r)
  finally show ?thesis .
qed

lemma qibla_from_pole: "getQiblaAngle 90 0 qiblaLat qiblaLon = 140.1738"
proof -
  have "getQiblaAngle 90 0 qiblaLat qiblaLon = 180 - qiblaLon"
    by (rule getQiblaAngle_from_pole) (simp_all add: qiblaLat_def qiblaLon_def)
  then show ?thesis by (simp add: qiblaLon_def)
qed

lemma label_from_pole: "toFixed2 (getQiblaAngle 90 0 qiblaLat qiblaLon) = 140.17"
proof -
  have "\<lfloor>140.1738 * 100 + 1 / 2 :: real\<rfloor> = 14017" by (simp add: floor_eq_iff)
  then have "toFixed2 140.1738 = 140.17" by (simp add: toFixed2_def)
  then show ?thesis by (simp only: qibla_from_pole)
qed

theorem handleOrientation_rotation_witness:
  "rotation (handleOrientation (Some 350) (orientations [Some 10, None] (showPosition north_pole blank_page)))
     = - 209.83
   \<and> rotation (showPosition north_pole blank_page) = 140.1738
   \<and> handleOrientation None (showPosition north_pole blank_page) = showPosition north_pole blank_page"
proof -
  note t = handleOrientation_rotation [of 350 "[Some 10, None]" north_pole blank_page
      "showPosition north_pole blank_page"]
  from t have "rotation (handleOrientation (Some 350)
        (orientations [Some 10, None] (showPosition north_pole blank_page))) =
      toFixed2 (getQiblaAngle (fst north_pole) (snd north_pole) qiblaLat qiblaLon) - 350"
    by blast
  then have "rotation (handleOrientation (Some 350)
        (orientations [Some 10, None] (showPosition north_pole blank_page))) = 140.17 - 350"
    by (simp only: north_pole_def fst_conv snd_conv label_from_pole)
  then have a: "rotation (handleOrientation (Some 350)
        (orientations [Some 10, None] (showPosition north_pole blank_page))) = - 209.83"
    by simp
  from t have "rotation (showPosition north_pole blank_page) =
      getQiblaAngle (fst north_pole) (snd north_pole) qiblaLat qiblaLon"
    by blast
  then have b: "rotation (showPosition north_pole blank_page) = 140.1738"
    by (simp only: north_pole_def fst_conv snd_conv qibla_from_pole)
  from t have c: "handleOrientation None (showPosition north_pole blank_page) =
      showPosition north_pole blank_page"
    by blast
  from a b c show ?thesis by blast
qed

text \<open>
  The rotation is not the bearing minus the heading. At the north pole, longitude 0, the
  bearing is 140.1738, the label shows 140.17, and an event with heading 0 rotates the
  compass by 140.17.
\<close>

theorem rotation_from_label_counterexample:
  "getQiblaAngle 90 0 qiblaLat qiblaLon - 0 = 140.1738
   \<and> rotation (handleOrientation (Some 0) (showPosition north_pole blank_page)) = 140.17
   \<and> rotation (handleOrientation (Some 0) (showPosition north_pole blank_page))
       \<noteq> getQiblaAngle 90 0 qiblaLat qiblaLon - 0"
proof -
  have "rotation (handleOrientation (Some 0) (showPosition north_pole blank_page)) =
      toFixed2 (getQiblaAngle 90 0 qiblaLat qiblaLon) - 0"
    by (simp add: handleOrientation_def showPosition_def Let_def north_pole_def)
  then have a: "rotation (handleOrientation (Some 0) (showPosition north_pole blank_page)) = 140.17"
    by (simp only: label_from_pole diff_zero)
  have b: "getQiblaAngle 90 0 qiblaLat qiblaLon - 0 = 140.1738"
    by (simp only: qibla_from_pole diff_zero)
  have "(140.17 :: real) \<noteq> 140.1738" by simp
  with a b show ?thesis by (simp only: simp_thms)
qed

end
